theory Spec2Isabelle
  imports Complex_Main "HOL-Library.Sublist"
begin

section \<open>Numbers\<close>

text \<open>
  JavaScript numbers are IEEE 754 binary64 doubles: zero and the reals \<open>m * 2 ^ e\<close> with
  an integer \<open>m\<close> below \<open>2 ^ 53\<close> in magnitude and \<open>e\<close> from \<open>-1074\<close> upwards. Every
  arithmetic operation returns the double nearest to the exact result, and on a tie the
  one with the even \<open>m\<close>. \<open>fl\<close> is that rounding of a real: \<open>binade x\<close> is the exponent of
  the power of two at or below \<open>\<bar>x\<bar>\<close> (no lower than \<open>-1022\<close>, where the subnormal numbers
  begin), \<open>ulp x\<close> the distance between neighbouring doubles there, and \<open>roundEven\<close> the
  nearest integer with ties to the even one. Results of magnitude \<open>2 ^ 1024\<close> and above,
  which the machine turns into \<open>Infinity\<close>, and \<open>NaN\<close> are outside the model.

  Rounding is written out where a property depends on it: in the break-even prices, in
  the lot-size adjustment and in the collateral amount. The ROI curves are kept as the
  real formulas: the language does not fix the last digit of \<open>Math.exp\<close>, \<open>Math.log\<close> and
  \<open>Math.sqrt\<close>, and what is stated of the curves are inequalities that are not strict,
  which rounding preserves (it keeps the order of its arguments). The other numbers are
  \<^typ>\<open>real\<close> values that the code only stores and compares, halves (which is exact in
  binary away from the subnormal range) or, for the small integer priorities, subtracts.
\<close>

definition binade :: "real \<Rightarrow> int" where
  "binade x = max \<lfloor>log 2 \<bar>x\<bar>\<rfloor> (- 1022)"

definition ulp :: "real \<Rightarrow> real" where
  "ulp x = 2 powr (of_int (binade x) - 52)"

definition roundEven :: "real \<Rightarrow> int" where
  "roundEven y =
     (let f = \<lfloor>y\<rfloor>; r = y - of_int f
      in if r < 1/2 then f else if 1/2 < r then f + 1 else if even f then f else f + 1)"

definition fl :: "real \<Rightarrow> real" where
  "fl x = (if x = 0 then 0 else of_int (roundEven (x / ulp x)) * ulp x)"

text \<open>The finite doubles: the reals that rounding leaves alone, below the overflow bound.\<close>

definition isDouble :: "real \<Rightarrow> bool" where
  "isDouble x \<longleftrightarrow> fl x = x \<and> \<bar>x\<bar> < 2 ^ 1024"

text \<open>
  \<open>x.toFixed(digits)\<close> prints the decimal \<open>n / 10 ^ digits\<close> for the integer \<open>n\<close> that
  brings it nearest to the magnitude of \<open>x\<close>, the larger \<open>n\<close> on a tie, with the sign of
  \<open>x\<close>. The model is the value of the string printed.
\<close>

definition toFixed :: "nat \<Rightarrow> real \<Rightarrow> real" where
  "toFixed digits x = sgn x * (of_int \<lfloor>\<bar>x\<bar> * 10 ^ digits + 1/2\<rfloor> / 10 ^ digits)"

section \<open>Break-even (hedge/strategiesV2.js, helpers/algoV2.js)\<close>

text \<open>
  \<^verbatim>\<open>calculateBreakEven(strike, roiDecimal, optionType) {
      return strike * (1 + (optionType === 'CALL' ? roiDecimal : -roiDecimal)); }\<close>
  The option type is a string in the source; everything that is not \<open>'CALL'\<close> takes the
  PUT branch. The sum and the product are rounded; the negation is exact.
\<close>

definition calculateBreakEven :: "real \<Rightarrow> real \<Rightarrow> string \<Rightarrow> real" where
  "calculateBreakEven strike roiDecimal optionType =
     fl (strike * fl (1 + (if optionType = ''CALL'' then roiDecimal else - roiDecimal)))"

text \<open>
  \<^verbatim>\<open>function computeBreakEven(product, roiPct) {
      const r = roiPct / 100;
      return product.strikePrice * (1 + (product.optionType === 'CALL' ? r : -r)); }\<close>
  The two fields of the product that the function reads are passed on their own.
\<close>

definition computeBreakEven :: "real \<Rightarrow> string \<Rightarrow> real \<Rightarrow> real" where
  "computeBreakEven strikePrice optionType roiPct =
     (let r = fl (roiPct / 100)
      in fl (strikePrice * fl (1 + (if optionType = ''CALL'' then r else - r))))"

section \<open>ROI curves (config.js)\<close>


text \<open>The fields of \<open>ROI_STRATEGIES.longTermROI\<close> and \<open>ROI_STRATEGIES.shortTermROI\<close>.\<close>

definition sqrtGrowthRate :: real where "sqrtGrowthRate = 0.02"
definition logSustainFactor :: real where "logSustainFactor = 1.5"

text \<open>
  \<^verbatim>\<open>calculate: function (daysToExpiry) {
      if (daysToExpiry <= 1) return 1.0;
      const sqrtComponent = this.sqrtGrowthRate * (Math.sqrt(daysToExpiry) - 1);
      const logComponent = this.logSustainFactor * Math.log(daysToExpiry);
      return 0.7 + sqrtComponent + logComponent; }\<close>
\<close>

definition longTermROI_calculate :: "real \<Rightarrow> real" where
  "longTermROI_calculate daysToExpiry =
     (if daysToExpiry \<le> 1 then 1.0
      else (let sqrtComponent = sqrtGrowthRate * (sqrt daysToExpiry - 1);
                logComponent = logSustainFactor * ln daysToExpiry
            in 0.7 + sqrtComponent + logComponent))"


section \<open>Lot-size precision (hedge/precisionHandling.js)\<close>

text \<open>
  \<open>countDecimals\<close> reads the digits that \<open>Number.prototype.toString\<close> prints after the
  decimal point, so the model needs the decimal rendering of a number and not only its
  value. A step size reaches the code as \<open>parseFloat\<close> of the exchange's decimal string
  (\<open>"0.00100000"\<close>); it is modelled as a non-negative decimal \<open>mantissa / 10 ^ places\<close>.
  A decimal of up to 15 significant digits, as the exchange sends them, is printed back by
  \<open>toString\<close> with the digits it was written with.
\<close>

datatype decimal = Decimal (mantissa: nat) (places: nat)

definition value_of :: "decimal \<Rightarrow> real" where
  "value_of d = real (mantissa d) / 10 ^ places d"

text \<open>The shortest rendering has no trailing zeros after the point.\<close>

fun stripZeros :: "nat \<Rightarrow> nat \<Rightarrow> nat \<times> nat" where
  "stripZeros m k =
     (if k = 0 then (m, 0)
      else if m mod 10 = 0 then stripZeros (m div 10) (k - 1)
      else (m, k))"

fun numDigits :: "nat \<Rightarrow> nat" where
  "numDigits n = (if n < 10 then 1 else Suc (numDigits (n div 10)))"

declare stripZeros.simps [simp del] numDigits.simps [simp del]

text \<open>
  \<^verbatim>\<open>function countDecimals(value) {
      if (Math.floor(value) === value) return 0;
      return value.toString().split(".")[1]?.length || 0; }\<close>
  With \<open>n\<close> significant digits and the decimal point after the first \<open>pointPos\<close> of them,
  \<open>toString\<close> prints plain decimal notation while \<open>-6 < pointPos\<close> (the value is at least
  \<open>1e-6\<close>) and exponent notation below that: \<open>"1e-7"\<close> has no point at all, and
  \<open>"1.5e-7"\<close> has the text \<open>"5e-7"\<close> after it.
\<close>

definition countDecimals :: "decimal \<Rightarrow> nat" where
  "countDecimals v =
     (case stripZeros (mantissa v) (places v) of
        (m, k) \<Rightarrow>
          if k = 0 then 0
          else (let n = numDigits m; pointPos = int n - int k
                in if - 6 < pointPos then k
                   else if n = 1 then 0
                   else (n - 1) + 2 + numDigits (nat (1 - pointPos))))"

text \<open>
  \<^verbatim>\<open>function adjustQuantityToLotSize(quantity, stepSize) {
      const stepSizeDecimals = countDecimals(stepSize);
      const factor = Math.pow(10, stepSizeDecimals);
      const floored = Math.floor(quantity * factor) / factor;
      return floored.toFixed(stepSizeDecimals); }\<close>
  The product and the quotient are rounded; \<open>Math.floor\<close> is exact, and so is
  \<open>Math.pow(10, n)\<close> up to \<open>n = 22\<close>, the powers of ten that are doubles. The result is
  the value of the string returned.
\<close>

definition adjustQuantityToLotSize :: "real \<Rightarrow> decimal \<Rightarrow> real" where
  "adjustQuantityToLotSize quantity stepSize =
     (let stepSizeDecimals = countDecimals stepSize;
          factor = 10 ^ stepSizeDecimals;
          floored = fl (of_int \<lfloor>fl (quantity * factor)\<rfloor> / factor)
      in toFixed stepSizeDecimals floored)"

text \<open>\<open>x\<close> is an integer multiple of the step \<open>s\<close>.\<close>

definition integerMultiple :: "real \<Rightarrow> real \<Rightarrow> bool" where
  "integerMultiple x s \<longleftrightarrow> frac (x / s) = 0"

section \<open>Hedge status and the position ledger (hedge/strategiesV2.js, sharedState.js)\<close>

text \<open>
  \<^verbatim>\<open>const HEDGE_STATUS = { NONE: 'NONE', STEP1: 'STEP1', FULL: 'FULL' };\<close>
  \<open>statusRank\<close> is the order \<open>NONE < STEP1 < FULL\<close> that the specification speaks about;
  the source compares statuses for equality only.
\<close>

datatype hedge_status = NONE | STEP1 | FULL


text \<open>
  A position as the exchange reports it, with the fields the hedging code reads. Fields
  that a position may lack are optional. Times are milliseconds (\<open>Date.now()\<close>).
\<close>

record position =
  pos_id :: string
  pos_symbol :: "string option"
  pos_exercisedCoin :: string
  pos_investCoin :: string
  pos_optionType :: string
  pos_strikePrice :: real
  pos_subscriptionAmount :: real
  pos_amount :: "real option"
  pos_roi :: "real option"
  pos_hoursToExpiry :: "real option"
  pos_timeToSettle :: "real option"
  pos_createdAt :: "int option"
  pos_hedgeStatus :: hedge_status

text \<open>
  One entry of \<open>log/positions.log\<close>, the JSON object keyed by position id. Only
  \<open>hedgeStatus\<close> is ever read back; an entry without it counts as \<open>NONE\<close>.
\<close>

record ledger_entry =
  le_id :: string
  le_symbol :: "string option"
  le_optionType :: string
  le_strikePrice :: real
  le_amount :: "real option"
  le_roi :: "real option"
  le_timeToSettle :: "real option"
  le_hedgeStatus :: "hedge_status option"
  le_createdAt :: int
  le_lastUpdated :: int

text \<open>
  What \<open>fs.readFile\<close> followed by \<open>JSON.parse\<close> yields: \<open>Unreadable\<close> when either throws,
  otherwise the parsed object (an empty file gives the empty object).
\<close>

datatype file_content = Unreadable | Content "string \<rightharpoonup> ledger_entry"

text \<open>The LOT_SIZE data of \<open>GET /api/v3/exchangeInfo\<close> and the margin order request.\<close>

record symbol_filter =
  sf_filterType :: string
  sf_stepSize :: decimal

record symbol_info =
  si_symbol :: string
  si_filters :: "symbol_filter list"

record margin_order =
  mo_symbol :: string
  mo_side :: string
  mo_quantity :: real
  mo_timestamp :: int

text \<open>
  \<open>response.data\<close> of an accepted margin order: a JSON object, which JavaScript treats as
  true in \<open>if (orderResult)\<close>.
\<close>

datatype order_ack = OrderAck (ack_orderId: nat)

text \<open>
  The state: the fields of the \<open>SharedState\<close> singleton, whether \<open>sharedState.config\<close>
  carries both API credentials, the ledger file on disk and the margin orders the
  exchange has accepted.
\<close>

record shared_state =
  positions :: "position list"
  lastUpdated :: "int option"
  spotBalances :: "string \<rightharpoonup> real"
  balancesLastUpdated :: "int option"
  hedgeStatuses :: "string \<rightharpoonup> hedge_status"
  hasCredentials :: bool
  positionsFile :: file_content
  marginOrders :: "margin_order list"

text \<open>
  The answers of the outside world during one operation: the clock, the exchange
  endpoints, \<open>Math.random()\<close> as drawn while the position with the given id is visited,
  and whether \<open>fs.writeFile\<close> succeeds.
\<close>

record io =
  io_now :: int
  io_fetchPositions :: "position list option"
  io_fetchSpotBalances :: "string \<rightharpoonup> real"
  io_fetchCurrentPrice :: "string \<Rightarrow> real option"
  io_random :: "string \<Rightarrow> real"
  io_exchangeInfo :: "symbol_info list option"
  io_marginOrder :: "margin_order \<Rightarrow> order_ack option"
  io_writeOk :: bool

text \<open>
  \<^verbatim>\<open>getHedgeStatus(positionId) {
      return this.hedgeStatuses.get(positionId) || HEDGE_STATUS.NONE; }\<close>
\<close>

definition getHedgeStatus :: "shared_state \<Rightarrow> string \<Rightarrow> hedge_status" where
  "getHedgeStatus s positionId =
     (case hedgeStatuses s positionId of None \<Rightarrow> NONE | Some h \<Rightarrow> h)"

text \<open>
  \<^verbatim>\<open>async loadHedgeStatus() {
      try {
          const content = await fs.readFile(this.positionsFile, 'utf8');
          const positions = content ? JSON.parse(content) : {};
          this.hedgeStatuses.clear();
          for (const posId in positions) {
              const position = positions[posId];
              this.hedgeStatuses.set(posId, position.hedgeStatus || HEDGE_STATUS.NONE);
          }
      } catch (err) { log('No existing position state found', 'debug'); } }\<close>
\<close>

definition loadHedgeStatus :: "shared_state \<Rightarrow> shared_state" where
  "loadHedgeStatus s =
     (case positionsFile s of
        Unreadable \<Rightarrow> s
      | Content file \<Rightarrow>
          s\<lparr>hedgeStatuses :=
              (\<lambda>posId. case file posId of
                         None \<Rightarrow> None
                       | Some entry \<Rightarrow>
                           Some (case le_hedgeStatus entry of None \<Rightarrow> NONE | Some h \<Rightarrow> h))\<rparr>)"

text \<open>JavaScript's \<open>a || b\<close> on numbers: zero and a missing value give way to \<open>b\<close>.\<close>

definition numOr :: "real option \<Rightarrow> real option \<Rightarrow> real option" where
  "numOr a b = (case a of None \<Rightarrow> b | Some x \<Rightarrow> if x = 0 then b else Some x)"

text \<open>
  \<^verbatim>\<open>async updatePosition(position, hedgeStatus = HEDGE_STATUS.NONE) {
      this.hedgeStatuses.set(position.id, hedgeStatus);
      let positions = {};
      try {
          const content = await fs.readFile(this.positionsFile, 'utf8');
          positions = content ? JSON.parse(content) : {};
      } catch { /* ignore */ }
      positions[position.id] = {
          id: position.id,
          symbol: position.symbol || (position.exercisedCoin + position.investCoin),
          optionType: position.optionType, strikePrice: position.strikePrice,
          amount: position.subscriptionAmount || position.amount,
          roi: position.roi, timeToSettle: position.hoursToExpiry || position.timeToSettle,
          hedgeStatus: hedgeStatus,
          createdAt: position.createdAt || new Date().toISOString(),
          lastUpdated: new Date().toISOString() };
      try { await fs.writeFile(this.positionsFile, JSON.stringify(positions, null, 2)); }
      catch (err) { log(...); } }\<close>
  The second argument is optional: \<open>None\<close> is a call that leaves it out.
\<close>

definition updatePosition ::
  "io \<Rightarrow> shared_state \<Rightarrow> position \<Rightarrow> hedge_status option \<Rightarrow> shared_state" where
  "updatePosition w s position hedgeStatusArg =
     (let hedgeStatus = (case hedgeStatusArg of None \<Rightarrow> NONE | Some h \<Rightarrow> h);
          s1 = s\<lparr>hedgeStatuses := (hedgeStatuses s)(pos_id position \<mapsto> hedgeStatus)\<rparr>;
          positions = (case positionsFile s1 of Unreadable \<Rightarrow> Map.empty | Content file \<Rightarrow> file);
          entry = \<lparr>le_id = pos_id position,
                   le_symbol =
                     (case pos_symbol position of
                        None \<Rightarrow> Some (pos_exercisedCoin position @ pos_investCoin position)
                      | Some name \<Rightarrow>
                          if name = [] then Some (pos_exercisedCoin position @ pos_investCoin position)
                          else Some name),
                   le_optionType = pos_optionType position,
                   le_strikePrice = pos_strikePrice position,
                   le_amount = numOr (Some (pos_subscriptionAmount position)) (pos_amount position),
                   le_roi = pos_roi position,
                   le_timeToSettle = numOr (pos_hoursToExpiry position) (pos_timeToSettle position),
                   le_hedgeStatus = Some hedgeStatus,
                   le_createdAt = (case pos_createdAt position of None \<Rightarrow> io_now w | Some t \<Rightarrow> t),
                   le_lastUpdated = io_now w\<rparr>
      in if io_writeOk w
         then s1\<lparr>positionsFile := Content (positions(pos_id position \<mapsto> entry))\<rparr>
         else s1)"

text \<open>
  \<^verbatim>\<open>async function getSymbolInfo(symbol) {
      try {
          const response = await axios.get('https://api.binance.com/api/v3/exchangeInfo');
          const symbolInfo = response.data.symbols.find(s => s.symbol === symbol);
          if (!symbolInfo) { throw new Error(...); }
          return symbolInfo;
      } catch (error) { log(...); return null; } }\<close>
\<close>

definition getSymbolInfo :: "io \<Rightarrow> string \<Rightarrow> symbol_info option" where
  "getSymbolInfo w symbol =
     (case io_exchangeInfo w of
        None \<Rightarrow> None
      | Some symbols \<Rightarrow> find (\<lambda>s. si_symbol s = symbol) symbols)"

text \<open>
  \<^verbatim>\<open>async function openCrossMarginPosition(symbol, side, amount, sharedState) {
      if (!sharedState.config || !sharedState.config.BINANCE_API_SECRET
          || !sharedState.config.BINANCE_API_KEY) { log(...); return null; }
      try {
          const symbolInfo = await getSymbolInfo(symbol);
          if (!symbolInfo) { return null; }
          const lotSizeFilter = symbolInfo.filters.find(f => f.filterType === 'LOT_SIZE');
          if (!lotSizeFilter) { log(...); return null; }
          const adjustedQuantity =
              adjustQuantityToLotSize(amount, parseFloat(lotSizeFilter.stepSize));
          const timestamp = Date.now();
          const params = { symbol, side, type: 'MARKET', quantity: adjustedQuantity.toString(),
              isIsolated: 'FALSE', sideEffectType: 'AUTO_BORROW_REPAY', timestamp };
          ...
          const response = await axios.post('https://api.binance.com/sapi/v1/margin/order', ...);
          return response.data;
      } catch (error) { log(...); return null; } }\<close>
  The constant request fields are left out of \<open>margin_order\<close>. A rejected or failed
  request is \<open>None\<close> from \<open>io_marginOrder\<close>; an accepted order is added to the orders
  the exchange holds.
\<close>

definition openCrossMarginPosition ::
  "io \<Rightarrow> shared_state \<Rightarrow> string \<Rightarrow> string \<Rightarrow> real \<Rightarrow> order_ack option \<times> shared_state" where
  "openCrossMarginPosition w s symbol side amount =
     (if \<not> hasCredentials s then (None, s)
      else case getSymbolInfo w symbol of
             None \<Rightarrow> (None, s)
           | Some symbolInfo \<Rightarrow>
               (case find (\<lambda>f. sf_filterType f = ''LOT_SIZE'') (si_filters symbolInfo) of
                  None \<Rightarrow> (None, s)
                | Some lotSizeFilter \<Rightarrow>
                    (let adjustedQuantity = adjustQuantityToLotSize amount (sf_stepSize lotSizeFilter);
                         params = \<lparr>mo_symbol = symbol, mo_side = side,
                                    mo_quantity = adjustedQuantity, mo_timestamp = io_now w\<rparr>
                     in case io_marginOrder w params of
                          None \<Rightarrow> (None, s)
                        | Some data \<Rightarrow> (Some data, s\<lparr>marginOrders := marginOrders s @ [params]\<rparr>))))"

text \<open>
  \<^verbatim>\<open>async executeHedge(position, symbol, spotPrice, breakEven, targetHedgeStatus) {
      try {
          const hedgeAmount = position.subscriptionAmount * 0.5;
          const side = position.optionType === 'PUT' ? 'SELL' : 'BUY';
          const orderResult =
              await openCrossMarginPosition(symbol, side, hedgeAmount, this.sharedState);
          if (orderResult) {
              position.hedgeStatus = targetHedgeStatus;
              await this.sharedState.updatePosition(position, targetHedgeStatus);
          }
      } catch (err) { log(...); } }\<close>
  The function returns the position object as it has mutated it, and the new state.
  Nothing in the \<open>try\<close> block throws: both callees catch their own errors.
\<close>

definition executeHedge ::
  "io \<Rightarrow> shared_state \<Rightarrow> position \<Rightarrow> string \<Rightarrow> real option \<Rightarrow> real \<Rightarrow> hedge_status
     \<Rightarrow> position \<times> shared_state" where
  "executeHedge w s position symbol spotPrice breakEven targetHedgeStatus =
     (let hedgeAmount = pos_subscriptionAmount position * 0.5;
          side = (if pos_optionType position = ''PUT'' then ''SELL'' else ''BUY'')
      in case openCrossMarginPosition w s symbol side hedgeAmount of
           (None, s1) \<Rightarrow> (position, s1)
         | (Some orderResult, s1) \<Rightarrow>
             (let position1 = position\<lparr>pos_hedgeStatus := targetHedgeStatus\<rparr>
              in (position1, updatePosition w s1 position1 (Some targetHedgeStatus))))"

text \<open>
  What the margin-order call of \<open>executeHedge\<close> returns, and the status that
  \<open>positions.log\<close> holds for a position. Both only name parts of the source for the
  statements below.
\<close>

definition hedgeOrderResult :: "io \<Rightarrow> shared_state \<Rightarrow> position \<Rightarrow> string \<Rightarrow> order_ack option" where
  "hedgeOrderResult w s position symbol =
     fst (openCrossMarginPosition w s symbol
            (if pos_optionType position = ''PUT'' then ''SELL'' else ''BUY'')
            (pos_subscriptionAmount position * 0.5))"

definition ledgerStatus :: "shared_state \<Rightarrow> string \<Rightarrow> hedge_status option" where
  "ledgerStatus s positionId =
     (case positionsFile s of
        Unreadable \<Rightarrow> None
      | Content file \<Rightarrow> (case file positionId of None \<Rightarrow> None | Some entry \<Rightarrow> le_hedgeStatus entry))"

text \<open>
  \<^verbatim>\<open>async monitorPositions(positions) {
      try {
          if (!positions || positions.length === 0) return;
          for (const position of positions) {
              const symbol = `${position.exercisedCoin}${position.investCoin}`;
              const spotPrice = await fetchCurrentPrice(symbol, config);
              if (Math.random() > 0.8) {
                  await this.executeHedge(position, symbol, spotPrice,
                      position.strikePrice * 1.05, HEDGE_STATUS.STEP1);
              }
          }
      } catch (err) { log(...); } }\<close>
  The positions are the objects of \<open>sharedState.positions\<close>; the function returns them as
  mutated.
\<close>

fun monitorPositions :: "io \<Rightarrow> shared_state \<Rightarrow> position list \<Rightarrow> position list \<times> shared_state" where
  "monitorPositions w s [] = ([], s)"
| "monitorPositions w s (position # rest) =
     (let symbol = pos_exercisedCoin position @ pos_investCoin position;
          spotPrice = io_fetchCurrentPrice w symbol;
          (position1, s1) =
            (if io_random w (pos_id position) > 0.8
             then executeHedge w s position symbol spotPrice (fl (pos_strikePrice position * 1.05)) STEP1
             else (position, s));
          (rest1, s2) = monitorPositions w s1 rest
      in (position1 # rest1, s2))"

text \<open>
  \<^verbatim>\<open>async monitorAndHedge() {
      try {
          if (!this.sharedState.positions?.length) { return; }
          if (Date.now() - this.sharedState.lastUpdated > 5 * 60 * 1000) { log(...); return; }
          await this.strategy.monitorPositions(this.sharedState.positions);
      } catch (err) { log(...); } }\<close>
  A \<open>lastUpdated\<close> that is still \<open>null\<close> counts as zero in the subtraction.
\<close>

definition monitorAndHedge :: "io \<Rightarrow> shared_state \<Rightarrow> shared_state" where
  "monitorAndHedge w s =
     (if positions s = [] then s
      else if io_now w - (case lastUpdated s of None \<Rightarrow> 0 | Some t \<Rightarrow> t) > 5 * 60 * 1000 then s
      else (case monitorPositions w s (positions s) of
              (positions1, s1) \<Rightarrow> s1\<lparr>positions := positions1\<rparr>))"











section \<open>The cycle (index.js)\<close>

text \<open>
  \<^verbatim>\<open>async function updatePositions() {
      try {
          const positions = await fetchPositions(config);
          await sharedState.loadHedgeStatus();
          sharedState.positions = (positions || []).map(pos => ({
              ...pos, hedgeStatus: sharedState.getHedgeStatus(pos.id) }));
          sharedState.lastUpdated = Date.now();
          ...
          const positionsMap = {};
          sharedState.positions.forEach(pos => {
              positionsMap[pos.id] = { ...pos, hedgeStatus: pos.hedgeStatus,
                  createdAt: pos.createdAt || new Date().toISOString(),
                  lastUpdated: new Date().toISOString() }; });
          await fs.writeFile(positionsLogPath, JSON.stringify(positionsMap, null, 2));
      } catch (err) { log(...); } }\<close>
  \<open>fetchPositions\<close> catches its own errors and answers \<open>null\<close> then. The file entry
  keeps the fields of the position that a ledger entry has.
\<close>

definition positionEntry :: "io \<Rightarrow> position \<Rightarrow> ledger_entry" where
  "positionEntry w pos =
     \<lparr>le_id = pos_id pos, le_symbol = pos_symbol pos, le_optionType = pos_optionType pos,
      le_strikePrice = pos_strikePrice pos, le_amount = pos_amount pos, le_roi = pos_roi pos,
      le_timeToSettle = pos_timeToSettle pos, le_hedgeStatus = Some (pos_hedgeStatus pos),
      le_createdAt = (case pos_createdAt pos of None \<Rightarrow> io_now w | Some t \<Rightarrow> t),
      le_lastUpdated = io_now w\<rparr>"

definition updatePositions :: "io \<Rightarrow> shared_state \<Rightarrow> shared_state" where
  "updatePositions w s =
     (let fetched = io_fetchPositions w;
          s1 = loadHedgeStatus s;
          s2 = s1\<lparr>positions :=
                    map (\<lambda>pos. pos\<lparr>pos_hedgeStatus := getHedgeStatus s1 (pos_id pos)\<rparr>)
                      (case fetched of None \<Rightarrow> [] | Some ps \<Rightarrow> ps),
                  lastUpdated := Some (io_now w)\<rparr>;
          positionsMap =
            foldl (\<lambda>m pos. m(pos_id pos \<mapsto> positionEntry w pos)) Map.empty (positions s2)
      in if io_writeOk w then s2\<lparr>positionsFile := Content positionsMap\<rparr> else s2)"

text \<open>
  \<^verbatim>\<open>async function updateSpotBalances() {
      try {
          const balances = await fetchSpotBalances(config);
          sharedState.spotBalances = balances;
          sharedState.balancesLastUpdated = Date.now();
      } catch (err) { log(...); } }\<close>
  \<open>fetchSpotBalances\<close> answers the empty object when its request fails.
\<close>

definition updateSpotBalances :: "io \<Rightarrow> shared_state \<Rightarrow> shared_state" where
  "updateSpotBalances w s =
     s\<lparr>spotBalances := io_fetchSpotBalances w, balancesLastUpdated := Some (io_now w)\<rparr>"

text \<open>\<open>MAX_TOTAL_POSITIONS: 30\<close> of config.js.\<close>

definition MAX_TOTAL_POSITIONS :: real where
  "MAX_TOTAL_POSITIONS = 30"

text \<open>The log lines and the process exit that the cycle and the lock emit.\<close>

datatype log_message =
    MaxPositionsStoppingProgram
  | MaxHedgedPositionsStoppingProgram nat int
  | SkippingOverlappingCronRun
  | CronTaskFailed string

datatype effect = Log log_message | ProcessExit nat

text \<open>
  \<^verbatim>\<open>async function runExecution() {
      const activePositions = sharedState.positions;
      if (activePositions.length >= config.MAX_TOTAL_POSITIONS) {
          const message = 'Max positions reached, skipping execution';
          ...
          return;
      }
      ... }\<close>
  Only the guard is modelled; what follows it (prices, products, filtering, \<open>execute\<close>) is
  the continuation \<open>rest\<close>, and \<open>None\<close> says that it did not run.
\<close>

definition runExecution :: "real \<Rightarrow> shared_state \<Rightarrow> 'a \<Rightarrow> 'a option" where
  "runExecution maxTotalPositions s rest =
     (let activePositions = positions s
      in if real (length activePositions) \<ge> maxTotalPositions then None else Some rest)"

text \<open>
  \<^verbatim>\<open>async function mainLoop() {
      await updatePositions();
      await updateSpotBalances();
      const activePositions = sharedState.positions;
      if (activePositions.length >= config.MAX_TOTAL_POSITIONS) {
          log('Max positions reached, stopping program', 'info');
          process.exit(0);
      }
      const hedgedCount = activePositions.filter(pos => pos.hedgeStatus !== 'NONE').length;
      const maxHedgedPositions = Math.floor(config.MAX_TOTAL_POSITIONS);
      if (hedgedCount >= maxHedgedPositions) {
          log(`Max hedged positions (${hedgedCount}/${maxHedgedPositions}) reached, ...`, 'info');
          process.exit(0);
      }
      // Execution and hedging disabled for showcase version
      // await runExecution();
      // await hedgeManager.monitorAndHedge();
  }\<close>
  The result lists what the cycle emits after the two updates; \<open>process.exit\<close> ends the
  process, so nothing follows it.
\<close>

definition mainLoop :: "real \<Rightarrow> io \<Rightarrow> shared_state \<Rightarrow> effect list \<times> shared_state" where
  "mainLoop maxTotalPositions w s =
     (let s1 = updatePositions w s;
          s2 = updateSpotBalances w s1;
          activePositions = positions s2
      in if real (length activePositions) \<ge> maxTotalPositions
         then ([Log MaxPositionsStoppingProgram, ProcessExit 0], s2)
         else (let hedgedCount = length (filter (\<lambda>pos. pos_hedgeStatus pos \<noteq> NONE) activePositions);
                   maxHedgedPositions = \<lfloor>maxTotalPositions\<rfloor>
               in if int hedgedCount \<ge> maxHedgedPositions
                  then ([Log (MaxHedgedPositionsStoppingProgram hedgedCount maxHedgedPositions),
                         ProcessExit 0], s2)
                  else ([], s2)))"

section \<open>The lock of the cron trigger (index.js)\<close>

text \<open>
  \<^verbatim>\<open>let cronLock = false;
  async function safeRun(task) {
      if (cronLock) { log('Skipping overlapping cron run due to active lock', 'debug'); return; }
      cronLock = true;
      try { await task(); }
      catch (err) { log(`Cron task failed: ${err.message}`, 'error'); }
      finally { cronLock = false; } }\<close>
  JavaScript runs the function up to the \<open>await\<close> without interruption, and the rest
  when the task has settled; triggers that fire in between run their own \<open>safeRun\<close>.
  The task is \<open>mainLoop\<close>, which does not touch \<open>cronLock\<close>; the model keeps of it
  only how it settles. \<open>taskRuns\<close> counts the calls of \<open>task()\<close>. A task that never
  settles, or that ends the process, has no settle event.
\<close>

record cron_state =
  cronLock :: bool
  taskRuns :: nat
  cronLog :: "log_message list"

text \<open>
  How the task settles: it resolves, or rejects with a value. \<open>err.message\<close> of a rejection
  with \<open>null\<close> or \<open>undefined\<close> is itself a TypeError, raised inside the \<open>catch\<close> block.
\<close>

datatype thrown = ErrorValue string | Nullish

datatype task_result = Resolved | Rejected thrown

datatype run_result = RunSkipped | RunDone | RunTypeError

definition safeRun_enter :: "cron_state \<Rightarrow> bool \<times> cron_state" where
  "safeRun_enter c =
     (if cronLock c then (False, c\<lparr>cronLog := cronLog c @ [SkippingOverlappingCronRun]\<rparr>)
      else (True, c\<lparr>cronLock := True, taskRuns := Suc (taskRuns c)\<rparr>))"

definition safeRun_settle :: "task_result \<Rightarrow> cron_state \<Rightarrow> run_result \<times> cron_state" where
  "safeRun_settle r c =
     (case r of
        Resolved \<Rightarrow> (RunDone, c\<lparr>cronLock := False\<rparr>)
      | Rejected (ErrorValue message) \<Rightarrow>
          (RunDone, c\<lparr>cronLog := cronLog c @ [CronTaskFailed message], cronLock := False\<rparr>)
      | Rejected Nullish \<Rightarrow> (RunTypeError, c\<lparr>cronLock := False\<rparr>))"

text \<open>One invocation that runs to its end before anything else happens.\<close>

definition safeRun :: "task_result \<Rightarrow> cron_state \<Rightarrow> run_result \<times> cron_state" where
  "safeRun taskOutcome c =
     (case safeRun_enter c of
        (False, c1) \<Rightarrow> (RunSkipped, c1)
      | (True, c1) \<Rightarrow> safeRun_settle taskOutcome c1)"

text \<open>
  The events of the process in their order: the scheduler fires, or the running task
  settles. A settle event without a running task does not occur; the model leaves the
  state as it is then.
\<close>

datatype cron_event = Trigger | TaskSettled task_result

fun cronStep :: "cron_state \<Rightarrow> cron_event \<Rightarrow> cron_state" where
  "cronStep c Trigger = snd (safeRun_enter c)"
| "cronStep c (TaskSettled r) = (if cronLock c then snd (safeRun_settle r c) else c)"

definition cronRun :: "cron_state \<Rightarrow> cron_event list \<Rightarrow> cron_state" where
  "cronRun c events = foldl cronStep c events"

section \<open>Collateral resolver (helpers/collateral.js, helpers/utils.js)\<close>

record collateral_asset =
  ca_enabled :: bool
  ca_minAmount :: real
  ca_maxAmount :: real
  ca_ltv :: real
  ca_priority :: real

text \<open>\<open>Object.entries(COLLATERAL_CONFIG.assets)\<close>: the entries in the order of the source.\<close>

definition COLLATERAL_CONFIG_assets :: "(string \<times> collateral_asset) list" where
  "COLLATERAL_CONFIG_assets =
     [(''BTC'', \<lparr>ca_enabled = True, ca_minAmount = 0.001, ca_maxAmount = 10,
                 ca_ltv = 0.75, ca_priority = 1\<rparr>),
      (''FDUSD'', \<lparr>ca_enabled = True, ca_minAmount = 100, ca_maxAmount = 100000,
                   ca_ltv = 0.75, ca_priority = 2\<rparr>),
      (''USDT'', \<lparr>ca_enabled = True, ca_minAmount = 100, ca_maxAmount = 100000,
                  ca_ltv = 0.75, ca_priority = 3\<rparr>)]"

text \<open>
  \<open>Array.prototype.sort(compare)\<close>. The sort is stable, and for a comparator that is a
  consistent ordering (as both comparators below are on entries with distinct keys) its
  result does not depend on the engine's algorithm; the model is insertion sort, which
  puts an element before the first one that it does not compare greater than.
\<close>

fun insertBy :: "('a \<Rightarrow> 'a \<Rightarrow> real) \<Rightarrow> 'a \<Rightarrow> 'a list \<Rightarrow> 'a list" where
  "insertBy compare x [] = [x]"
| "insertBy compare x (y # ys) =
     (if compare x y \<le> 0 then x # y # ys else y # insertBy compare x ys)"

definition sortBy :: "('a \<Rightarrow> 'a \<Rightarrow> real) \<Rightarrow> 'a list \<Rightarrow> 'a list" where
  "sortBy compare xs = foldr (insertBy compare) xs []"

text \<open>
  \<^verbatim>\<open>// If borrowing BTC, move BTC to lowest priority
  collateralAssets.sort(([a, aConfig], [b, bConfig]) => {
      if (a === 'BTC') return 1; // Move BTC to end
      if (b === 'BTC') return -1;
      return aConfig.priority - bConfig.priority; });\<close>
\<close>

definition compareBorrowingBTC ::
  "string \<times> collateral_asset \<Rightarrow> string \<times> collateral_asset \<Rightarrow> real" where
  "compareBorrowingBTC x y =
     (case (x, y) of
        ((a, aConfig), (b, bConfig)) \<Rightarrow>
          if a = ''BTC'' then 1
          else if b = ''BTC'' then - 1
          else ca_priority aConfig - ca_priority bConfig)"

text \<open>
  \<^verbatim>\<open>// For all other coins, keep BTC as highest priority
  collateralAssets.sort(([a, aConfig], [b, bConfig]) => {
      if (a === 'BTC') return -1; // Keep BTC first
      if (b === 'BTC') return 1;
      return aConfig.priority - bConfig.priority; });\<close>
\<close>

definition compareBorrowingOther ::
  "string \<times> collateral_asset \<Rightarrow> string \<times> collateral_asset \<Rightarrow> real" where
  "compareBorrowingOther x y =
     (case (x, y) of
        ((a, aConfig), (b, bConfig)) \<Rightarrow>
          if a = ''BTC'' then - 1
          else if b = ''BTC'' then 1
          else ca_priority aConfig - ca_priority bConfig)"

text \<open>
  \<^verbatim>\<open>let collateralAssets = Object.entries(COLLATERAL_CONFIG.assets)
      .filter(([_, config]) => config.enabled);
  if (coin === 'BTC') { collateralAssets.sort(...) } else { collateralAssets.sort(...) }\<close>
\<close>

definition collateralOrder ::
  "string \<Rightarrow> (string \<times> collateral_asset) list \<Rightarrow> (string \<times> collateral_asset) list" where
  "collateralOrder coin assets =
     (let collateralAssets = filter (\<lambda>(_, config). ca_enabled config) assets
      in if coin = ''BTC'' then sortBy compareBorrowingBTC collateralAssets
         else sortBy compareBorrowingOther collateralAssets)"

text \<open>The parameters of one \<open>POST /sapi/v2/loan/flexible/borrow\<close>.\<close>

record borrow_request =
  br_loanCoin :: string
  br_loanAmount :: real
  br_collateralCoin :: string
  br_collateralAmount :: real
  br_timestamp :: int

datatype borrow_ack = BorrowAck

text \<open>A dual-investment product with the fields that the subscription code reads.\<close>

record product =
  pr_id :: string
  pr_orderId :: string
  pr_optionType :: string
  pr_exercisedCoin :: string
  pr_investCoin :: string
  pr_underlying :: string
  pr_settleCoin :: string
  pr_settleDate :: int
  pr_apr :: "real option"
  pr_targetRoi :: "real option"
  pr_actualRoi :: "real option"

text \<open>
  What signing and posting the subscription request come to inside \<open>subscribeToProduct\<close>:
  success, or the \<open>catch\<close> block with \<open>error.response.data.code\<close> (\<open>None\<close> for the
  source's \<open>'N/A'\<close>) and the message.
\<close>

datatype subscribe_response = Subscribed | SubscribeFailed "int option" string

text \<open>
  The exchange as helpers/utils.js sees it: the clock, whether the API secret is
  configured, \<open>fetchCurrentPrice\<close> (\<open>None\<close> for \<open>null\<close>), the borrow endpoint (\<open>None\<close>
  when the request throws), the subscription endpoint and \<open>fetchDualProductByMeta\<close> (which
  answers the empty list on failure).
\<close>

record exchange =
  x_now :: int
  x_hasApiSecret :: bool
  x_fetchCurrentPrice :: "string \<Rightarrow> real option"
  x_borrow :: "borrow_request \<Rightarrow> borrow_ack option"
  x_subscribe :: "product \<Rightarrow> real \<Rightarrow> subscribe_response"
  x_fetchDualProductByMeta :: "string \<Rightarrow> string \<Rightarrow> string \<Rightarrow> product list"

text \<open>\<open>!price\<close> holds for \<open>null\<close> and for zero.\<close>

definition truthyPrice :: "real option \<Rightarrow> real option" where
  "truthyPrice p = (case p of None \<Rightarrow> None | Some v \<Rightarrow> if v = 0 then None else Some v)"

text \<open>
  The body of the loop over the candidates, in the three steps of the source. Pricing:
  \<^verbatim>\<open>const isCollateralStable = collateralCoin === 'USDT' || collateralCoin === 'FDUSD';
  const isCoinStable = coin === 'USDT' || coin === 'FDUSD';
  let currentPrice, collateralPrice;
  if (isCollateralStable) {
      currentPrice = await fetchCurrentPrice(`${coin}${collateralCoin}`, config);
      collateralPrice = 1;
  } else if (isCoinStable) {
      currentPrice = 1;
      collateralPrice = await fetchCurrentPrice(`${collateralCoin}${coin}`, config);
  } else {
      currentPrice = await fetchCurrentPrice(`${coin}USDT`, config);
      collateralPrice = await fetchCurrentPrice(`${collateralCoin}USDT`, config);
  }\<close>
\<close>

definition borrowPrices :: "exchange \<Rightarrow> string \<Rightarrow> string \<Rightarrow> real option \<times> real option" where
  "borrowPrices x coin collateralCoin =
     (let isCollateralStable = (collateralCoin = ''USDT'' \<or> collateralCoin = ''FDUSD'');
          isCoinStable = (coin = ''USDT'' \<or> coin = ''FDUSD'')
      in if isCollateralStable then (x_fetchCurrentPrice x (coin @ collateralCoin), Some 1)
         else if isCoinStable then (Some 1, x_fetchCurrentPrice x (collateralCoin @ coin))
         else (x_fetchCurrentPrice x (coin @ ''USDT''),
               x_fetchCurrentPrice x (collateralCoin @ ''USDT'')))"

text \<open>
  The request:
  \<^verbatim>\<open>const borrowValue = amount * currentPrice;
  const collateralValue = borrowValue / collateralConfig.ltv;
  const collateralAmount = collateralValue / collateralPrice;
  const params = { loanCoin: coin, loanAmount: amount, collateralCoin: collateralCoin,
      collateralAmount: collateralAmount.toFixed(8), timestamp };\<close>
  A loan-to-value of zero, on which the quotient is \<open>Infinity\<close>, is outside the model.
\<close>

definition borrowParams ::
  "exchange \<Rightarrow> string \<Rightarrow> real \<Rightarrow> string \<Rightarrow> collateral_asset \<Rightarrow> real \<Rightarrow> real \<Rightarrow> borrow_request" where
  "borrowParams x coin amount collateralCoin collateralConfig currentPrice collateralPrice =
     (let borrowValue = fl (amount * currentPrice);
          collateralValue = fl (borrowValue / ca_ltv collateralConfig);
          collateralAmount = fl (collateralValue / collateralPrice)
      in \<lparr>br_loanCoin = coin, br_loanAmount = amount, br_collateralCoin = collateralCoin,
          br_collateralAmount = toFixed 8 collateralAmount, br_timestamp = x_now x\<rparr>)"

text \<open>
  The loop:
  \<^verbatim>\<open>for (const [collateralCoin, collateralConfig] of collateralAssets) {
      ... prices ...
      if (!currentPrice || !collateralPrice) { log(...); continue; }
      ... params ...
      const queryString = new URLSearchParams(params).toString();
      const signature = generateSignature(queryString, config.BINANCE_API_SECRET);
      try {
          const response = await axios.post('.../sapi/v2/loan/flexible/borrow', ...);
          return response.data;
      } catch (error) { log(...); continue; }
  }
  log(...); return null;\<close>
  The result pairs the borrow requests sent, in their order, with what the function
  returns (\<open>None\<close> for \<open>null\<close>). \<open>generateSignature\<close> throws without an API secret; the
  outer \<open>catch\<close> of \<open>borrowCoins\<close> turns that into \<open>null\<close>.
\<close>

fun borrowLoop ::
  "exchange \<Rightarrow> string \<Rightarrow> real \<Rightarrow> (string \<times> collateral_asset) list
     \<Rightarrow> borrow_request list \<times> borrow_ack option" where
  "borrowLoop x coin amount [] = ([], None)"
| "borrowLoop x coin amount ((collateralCoin, collateralConfig) # rest) =
     (case borrowPrices x coin collateralCoin of
        (currentPrice, collateralPrice) \<Rightarrow>
          (case truthyPrice currentPrice of
             None \<Rightarrow> borrowLoop x coin amount rest
           | Some currentPrice1 \<Rightarrow>
               (case truthyPrice collateralPrice of
                  None \<Rightarrow> borrowLoop x coin amount rest
                | Some collateralPrice1 \<Rightarrow>
                    (let params = borrowParams x coin amount collateralCoin collateralConfig
                                    currentPrice1 collateralPrice1
                     in if \<not> x_hasApiSecret x then ([], None)
                        else case x_borrow x params of
                               Some data \<Rightarrow> ([params], Some data)
                             | None \<Rightarrow>
                                 (case borrowLoop x coin amount rest of
                                    (attempts, result) \<Rightarrow> (params # attempts, result))))))"

text \<open>\<open>borrowCoins(coin, amount, config)\<close> over the configured collateral assets.\<close>

definition borrowCoins ::
  "exchange \<Rightarrow> (string \<times> collateral_asset) list \<Rightarrow> string \<Rightarrow> real
     \<Rightarrow> borrow_request list \<times> borrow_ack option" where
  "borrowCoins x assets coin amount = borrowLoop x coin amount (collateralOrder coin assets)"

text \<open>The priority of an entry, for stating the order of the candidates.\<close>

definition priorityOf :: "string \<times> collateral_asset \<Rightarrow> real" where
  "priorityOf entry = ca_priority (snd entry)"

text \<open>
  The request that the loop body builds for one candidate, \<open>None\<close> when the candidate is
  skipped for a missing price, and the requests of a list of candidates in their order.
  Both only name parts of \<open>borrowLoop\<close> for the statements below.
\<close>

definition candidateRequest ::
  "exchange \<Rightarrow> string \<Rightarrow> real \<Rightarrow> string \<times> collateral_asset \<Rightarrow> borrow_request option" where
  "candidateRequest x coin amount candidate =
     (case truthyPrice (fst (borrowPrices x coin (fst candidate))) of
        None \<Rightarrow> None
      | Some currentPrice \<Rightarrow>
          (case truthyPrice (snd (borrowPrices x coin (fst candidate))) of
             None \<Rightarrow> None
           | Some collateralPrice \<Rightarrow>
               Some (borrowParams x coin amount (fst candidate) (snd candidate)
                       currentPrice collateralPrice)))"

definition candidateRequests ::
  "exchange \<Rightarrow> string \<Rightarrow> real \<Rightarrow> (string \<times> collateral_asset) list \<Rightarrow> borrow_request list" where
  "candidateRequests x coin amount candidates =
     List.map_filter (candidateRequest x coin amount) candidates"

definition turnedDown :: "exchange \<Rightarrow> borrow_request \<Rightarrow> bool" where
  "turnedDown x request \<longleftrightarrow> x_borrow x request = None"

section \<open>Subscription and its retry (helpers/utils.js)\<close>

text \<open>\<open>text.includes(pattern)\<close>.\<close>

fun includesText :: "string \<Rightarrow> string \<Rightarrow> bool" where
  "includesText [] pattern = (pattern = [])"
| "includesText (c # cs) pattern = (prefix pattern (c # cs) \<or> includesText cs pattern)"

text \<open>What an asynchronous function comes to: it returns a value, or it throws.\<close>

datatype 'a completion = Returns 'a | Throws string

text \<open>
  \<^verbatim>\<open>async function subscribeToProduct(product, amount, config) {
      try {
          ... await axios.post('https://api.binance.com/sapi/v1/dci/product/subscribe', ...);
          ...
          const expiryDateStr = new Date(product.settleDate).toISOString().split('T')[0];
          ...
          const roiComparison = product.targetRoi
              ? ` | ROI: ${product.actualRoi.toFixed(2)}% > ${product.targetRoi.toFixed(2)}%` : '';
          log(...);
          return true;
      } catch (error) {
          const code = error?.response?.data?.code || 'N/A';
          const msg = error?.response?.data?.msg || error.message;
          ...
          if (code === -9000 && typeof msg === 'string' && msg.includes('APY')
              && !retriedProducts.has(product.id)) {
              retriedProducts.add(product.id);
              const updatedProducts = await fetchDualProductByMeta({
                  optionType: product.optionType, exercisedCoin: product.exercisedCoin,
                  investCoin: product.investCoin, config });
              const matched = updatedProducts.find(p =>
                  p.underlying === product.underlying && p.optionType === product.optionType &&
                  p.settleCoin === product.settleCoin && p.settleDate === product.settleDate &&
                  parseFloat(p.apr) >= parseFloat(product.apr));
              if (!matched) { log(...); }
              if (matched) { return await subscribeToProduct(matched, amount, config); }
              else { log(...); }
          }
          return false;
      } }\<close>
  The line that reports a subscription is built inside the \<open>try\<close> block, after the
  exchange has accepted the request. \<open>toISOString\<close> throws a RangeError for a settle date
  outside the range of \<open>Date\<close> (8.64e15 milliseconds either side of the epoch), and
  \<open>product.actualRoi.toFixed\<close> throws a TypeError when the product carries a target ROI
  but no actual ROI; the \<open>catch\<close> block then finds no response code and returns
  \<open>false\<close>. The other fields of the line are numbers or strings whose formatting does
  not throw.

  \<open>retriedProducts\<close> is used as a module-level \<open>Set\<close>, but helpers/utils.js never declares
  it. The binding is a parameter of the model: \<open>None\<close> is the file as it stands, where
  evaluating \<open>retriedProducts.has\<close> throws a ReferenceError out of the \<open>catch\<close> block;
  \<open>Some ids\<close> is the file with the declaration supplied. The function returns the set as
  it leaves it. The recursion has no bound of its own (every retry may meet a product
  with a new id), so the model counts calls down from \<open>fuel\<close>; \<open>None\<close> is a run that
  needs more.
\<close>

definition subscribedLogThrows :: "product \<Rightarrow> bool" where
  "subscribedLogThrows product \<longleftrightarrow>
     8640000000000000 < \<bar>pr_settleDate product\<bar>
     \<or> (case pr_targetRoi product of
           None \<Rightarrow> False
         | Some targetRoi \<Rightarrow> targetRoi \<noteq> 0 \<and> pr_actualRoi product = None)"

definition matchesRetry :: "product \<Rightarrow> product \<Rightarrow> bool" where
  "matchesRetry product p \<longleftrightarrow>
     pr_underlying p = pr_underlying product \<and> pr_optionType p = pr_optionType product \<and>
     pr_settleCoin p = pr_settleCoin product \<and> pr_settleDate p = pr_settleDate product \<and>
     (case (pr_apr p, pr_apr product) of (Some a, Some b) \<Rightarrow> a \<ge> b | _ \<Rightarrow> False)"

fun subscribeToProduct ::
  "nat \<Rightarrow> exchange \<Rightarrow> string set option \<Rightarrow> product \<Rightarrow> real
     \<Rightarrow> (bool completion \<times> string set option) option" where
  "subscribeToProduct 0 x retriedProducts product amount = None"
| "subscribeToProduct (Suc fuel) x retriedProducts product amount =
     (case x_subscribe x product amount of
        Subscribed \<Rightarrow>
          if subscribedLogThrows product then Some (Returns False, retriedProducts)
          else Some (Returns True, retriedProducts)
      | SubscribeFailed code msg \<Rightarrow>
          if code = Some (- 9000) \<and> includesText msg ''APY''
          then (case retriedProducts of
                  None \<Rightarrow> Some (Throws ''ReferenceError'', None)
                | Some ids \<Rightarrow>
                    if pr_id product \<in> ids then Some (Returns False, retriedProducts)
                    else (let ids1 = insert (pr_id product) ids;
                              updatedProducts =
                                x_fetchDualProductByMeta x (pr_optionType product)
                                  (pr_exercisedCoin product) (pr_investCoin product);
                              matched = find (matchesRetry product) updatedProducts
                          in case matched of
                               Some p \<Rightarrow> subscribeToProduct fuel x (Some ids1) p amount
                             | None \<Rightarrow> Some (Returns False, Some ids1)))
          else Some (Returns False, retriedProducts))"

section \<open>Example data\<close>

text \<open>
  A PUT position on BTC/USDT, an exchange that lists BTCUSDT with lot step 0.00001 and
  accepts every margin order, a state with credentials and an empty ledger file, and the
  same state with a ledger file that holds the position as fully hedged.
\<close>

definition demoPosition :: position where
  "demoPosition =
     \<lparr>pos_id = ''1001'', pos_symbol = None, pos_exercisedCoin = ''BTC'', pos_investCoin = ''USDT'',
      pos_optionType = ''PUT'', pos_strikePrice = 60000, pos_subscriptionAmount = 5/2,
      pos_amount = None, pos_roi = None, pos_hoursToExpiry = None, pos_timeToSettle = None,
      pos_createdAt = None, pos_hedgeStatus = NONE\<rparr>"

definition demoIo :: io where
  "demoIo =
     \<lparr>io_now = 1000000,
      io_fetchPositions = Some [demoPosition],
      io_fetchSpotBalances = Map.empty,
      io_fetchCurrentPrice = (\<lambda>pair. Some 59000),
      io_random = (\<lambda>positionId. 9/10),
      io_exchangeInfo =
        Some [\<lparr>si_symbol = ''BTCUSDT'',
               si_filters = [\<lparr>sf_filterType = ''LOT_SIZE'', sf_stepSize = Decimal 1000 8\<rparr>]\<rparr>],
      io_marginOrder = (\<lambda>order. Some (OrderAck 1)),
      io_writeOk = True\<rparr>"


definition demoLedger :: "string \<rightharpoonup> ledger_entry" where
  "demoLedger = [''1001'' \<mapsto> positionEntry demoIo (demoPosition\<lparr>pos_hedgeStatus := FULL\<rparr>)]"

definition demoState :: shared_state where
  "demoState =
     \<lparr>positions = [], lastUpdated = None, spotBalances = Map.empty, balancesLastUpdated = None,
      hedgeStatuses = Map.empty, hasCredentials = True, positionsFile = Content Map.empty,
      marginOrders = []\<rparr>"

definition demoHedgedState :: shared_state where
  "demoHedgedState = demoState\<lparr>positionsFile := Content demoLedger\<rparr>"

text \<open>
  Two hedge executions for the same position and the same target, the second one three
  minutes after the first.
\<close>

definition demoFirstHedge :: "position \<times> shared_state" where
  "demoFirstHedge = executeHedge demoIo demoState demoPosition ''BTCUSDT'' (Some 59000) 63000 STEP1"

definition demoSecondHedge :: "position \<times> shared_state" where
  "demoSecondHedge =
     executeHedge (demoIo\<lparr>io_now := 1180000\<rparr>) (snd demoFirstHedge) (fst demoFirstHedge)
       ''BTCUSDT'' (Some 59000) 63000 STEP1"

text \<open>
  An exchange that quotes BTC against USDT and FDUSD, turns down loans against stablecoin
  collateral and grants them against BTC, and rejects every subscription with the
  stale-APY code; and a product to subscribe to.
\<close>

definition demoExchange :: exchange where
  "demoExchange =
     \<lparr>x_now = 1000000,
      x_hasApiSecret = True,
      x_fetchCurrentPrice =
        (\<lambda>pair. if pair = ''BTCUSDT'' \<or> pair = ''BTCFDUSD'' then Some 60000 else None),
      x_borrow = (\<lambda>request. if br_collateralCoin request = ''BTC'' then Some BorrowAck else None),
      x_subscribe = (\<lambda>product amount. SubscribeFailed (Some (- 9000)) ''Product APY has been updated''),
      x_fetchDualProductByMeta = (\<lambda>optionType exercisedCoin investCoin. [])\<rparr>"

definition demoProduct :: product where
  "demoProduct =
     \<lparr>pr_id = ''741590'', pr_orderId = ''8257205859'', pr_optionType = ''PUT'',
      pr_exercisedCoin = ''BTC'', pr_investCoin = ''USDT'', pr_underlying = ''BTC'',
      pr_settleCoin = ''USDT'', pr_settleDate = 1700000000000, pr_apr = Some (1/5),
      pr_targetRoi = None, pr_actualRoi = None\<rparr>"

section \<open>Verified properties\<close>

subsection \<open>Rounding\<close>

text \<open>
  Facts about \<open>fl\<close>: it keeps the sign and the order of its arguments, it errs by at most
  half an \<open>ulp\<close>, it leaves integers below \<open>2 ^ 53\<close> alone, and a result at least one
  part in \<open>2 ^ 52\<close> away from a normal double does not round back to that double.
\<close>

lemma roundEven_ge: "of_int n \<le> y \<Longrightarrow> n \<le> roundEven y"
proof -
  assume "of_int n \<le> y"
  hence "n \<le> \<lfloor>y\<rfloor>" by (simp add: le_floor_iff)
  thus ?thesis by (simp add: roundEven_def Let_def)
qed

lemma roundEven_le: "y \<le> of_int n \<Longrightarrow> roundEven y \<le> n"
proof -
  assume h: "y \<le> of_int n"
  have f: "\<lfloor>y\<rfloor> \<le> n" using h by (simp add: floor_le_iff) 
  show ?thesis
  proof (cases "y - of_int \<lfloor>y\<rfloor> < 1/2")
    case True thus ?thesis using f by (simp add: roundEven_def Let_def)
  next
    case False
    hence "of_int \<lfloor>y\<rfloor> < y" by linarith
    hence "of_int \<lfloor>y\<rfloor> < (of_int n :: real)" using h by linarith
    hence "\<lfloor>y\<rfloor> < n" by simp
    thus ?thesis by (simp add: roundEven_def Let_def)
  qed
qed

lemma roundEven_of_int: "roundEven (of_int n) = n"
  by (simp add: roundEven_def Let_def)

lemma roundEven_err: "\<bar>of_int (roundEven y) - y\<bar> \<le> 1/2"
proof -
  have "of_int \<lfloor>y\<rfloor> \<le> y" "y < of_int \<lfloor>y\<rfloor> + 1" by linarith+
  thus ?thesis by (auto simp add: roundEven_def Let_def)
qed

lemma ulp_pos: "0 < ulp x"
  by (simp add: ulp_def)

lemma binade_ge: "- 1022 \<le> binade x"
  by (simp add: binade_def)

lemma above_power_of_two_pos: "2 powr a \<le> x \<Longrightarrow> 0 < (x::real)"
  using powr_gt_zero [of 2 a] by linarith

lemma binade_eq:
  assumes "2 powr of_int e \<le> \<bar>x\<bar>" and "\<bar>x\<bar> < 2 powr (of_int e + 1)" and "- 1022 \<le> e"
  shows "binade x = e"
proof -
  have "0 < \<bar>x\<bar>" using assms(1) by (rule above_power_of_two_pos)
  hence "\<lfloor>log 2 \<bar>x\<bar>\<rfloor> = e" using assms by (simp add: floor_log_eq_powr_iff)
  thus ?thesis using assms(3) by (simp add: binade_def)
qed

lemma binade_upper: "x \<noteq> 0 \<Longrightarrow> \<bar>x\<bar> < 2 powr (of_int (binade x) + 1)"
proof -
  assume "x \<noteq> 0"
  hence p: "0 < \<bar>x\<bar>" by simp
  define k where "k = \<lfloor>log 2 \<bar>x\<bar>\<rfloor>"
  have "\<bar>x\<bar> < 2 powr (of_int k + 1)"
    using p floor_log_eq_powr_iff [of "\<bar>x\<bar>" 2 k] by (simp add: k_def)
  moreover have "k \<le> binade x" by (simp add: binade_def k_def)
  hence "(2::real) powr (of_int k + 1) \<le> 2 powr (of_int (binade x) + 1)" by simp
  ultimately show ?thesis by linarith
qed

lemma binade_lower: "2 powr (- 1022) \<le> \<bar>x\<bar> \<Longrightarrow> 2 powr of_int (binade x) \<le> \<bar>x\<bar>"
proof -
  assume h: "2 powr (- 1022) \<le> \<bar>x\<bar>"
  hence p: "0 < \<bar>x\<bar>" by (rule above_power_of_two_pos)
  define k where "k = \<lfloor>log 2 \<bar>x\<bar>\<rfloor>"
  have l: "2 powr of_int k \<le> \<bar>x\<bar>"
    using p floor_log_eq_powr_iff [of "\<bar>x\<bar>" 2 k] by (simp add: k_def)
  have "- 1022 \<le> log 2 \<bar>x\<bar>" using h p by (simp add: le_log_iff)
  hence "- 1022 \<le> k" unfolding k_def by (simp add: le_floor_iff)
  hence "binade x = k" by (simp add: binade_def k_def)
  thus ?thesis using l by simp
qed

lemma binade_mono: "0 < x \<Longrightarrow> x \<le> y \<Longrightarrow> binade x \<le> binade y"
proof -
  assume "0 < x" "x \<le> y"
  hence "log 2 \<bar>x\<bar> \<le> log 2 \<bar>y\<bar>" by simp
  hence "\<lfloor>log 2 \<bar>x\<bar>\<rfloor> \<le> \<lfloor>log 2 \<bar>y\<bar>\<rfloor>" by (rule floor_mono)
  thus ?thesis by (simp add: binade_def)
qed

lemma fl_ge_grid: "0 < x \<Longrightarrow> of_int n * ulp x \<le> x \<Longrightarrow> of_int n * ulp x \<le> fl x"
proof -
  assume p: "0 < x" and h: "of_int n * ulp x \<le> x"
  have "of_int n \<le> x / ulp x" using h ulp_pos [of x] by (simp add: pos_le_divide_eq)
  hence "n \<le> roundEven (x / ulp x)" by (rule roundEven_ge)
  hence "(of_int n :: real) \<le> of_int (roundEven (x / ulp x))" by simp
  hence "of_int n * ulp x \<le> of_int (roundEven (x / ulp x)) * ulp x"
    using ulp_pos [of x] by (simp add: mult_right_mono)
  thus ?thesis using p by (simp add: fl_def)
qed

lemma fl_le_grid: "0 < x \<Longrightarrow> x \<le> of_int n * ulp x \<Longrightarrow> fl x \<le> of_int n * ulp x"
proof -
  assume p: "0 < x" and h: "x \<le> of_int n * ulp x"
  have "x / ulp x \<le> of_int n" using h ulp_pos [of x] by (simp add: pos_divide_le_eq)
  hence "roundEven (x / ulp x) \<le> n" by (rule roundEven_le)
  hence "(of_int (roundEven (x / ulp x)) :: real) \<le> of_int n" by simp
  hence "of_int (roundEven (x / ulp x)) * ulp x \<le> of_int n * ulp x"
    using ulp_pos [of x] by (simp add: mult_right_mono)
  thus ?thesis using p by (simp add: fl_def)
qed

lemma fl_nonneg: "0 \<le> x \<Longrightarrow> 0 \<le> fl x"
proof (cases "x = 0")
  case True thus ?thesis by (simp add: fl_def)
next
  case False
  assume "0 \<le> x"
  hence "0 < x" using False by simp
  thus ?thesis using fl_ge_grid [of x 0] by simp
qed

lemma fl_nonpos: "x \<le> 0 \<Longrightarrow> fl x \<le> 0"
proof (cases "x = 0")
  case True thus ?thesis by (simp add: fl_def)
next
  case False
  assume "x \<le> 0"
  hence "x / ulp x \<le> of_int 0" using ulp_pos [of x] by (simp add: divide_le_0_iff)
  hence "roundEven (x / ulp x) \<le> 0" by (rule roundEven_le)
  hence "(of_int (roundEven (x / ulp x)) :: real) \<le> 0" by simp
  hence "of_int (roundEven (x / ulp x)) * ulp x \<le> 0"
    using ulp_pos [of x] by (simp add: mult_le_0_iff)
  thus ?thesis using False by (simp add: fl_def)
qed

lemma fl_err: "\<bar>fl x - x\<bar> \<le> ulp x / 2"
proof (cases "x = 0")
  case True thus ?thesis using ulp_pos [of x] by (simp add: fl_def)
next
  case False
  define u where "u = ulp x"
  have u: "0 < u" by (simp add: u_def ulp_pos)
  have "fl x - x = (of_int (roundEven (x / u)) - x / u) * u"
    using False u by (simp add: fl_def u_def algebra_simps)
  hence "\<bar>fl x - x\<bar> = \<bar>of_int (roundEven (x / u)) - x / u\<bar> * u"
    using u by (simp add: abs_mult)
  also have "\<dots> \<le> 1/2 * u" using roundEven_err [of "x / u"] u by (simp add: mult_right_mono)
  finally show ?thesis by (simp add: u_def)
qed

lemma fl_rel_err:
  assumes "2 powr (- 1022) \<le> \<bar>x\<bar>"
  shows "\<bar>fl x - x\<bar> \<le> \<bar>x\<bar> * 2 powr (- 53)"
proof -
  have "ulp x / 2 = 2 powr of_int (binade x) * 2 powr (- 53)"
    by (simp add: ulp_def powr_diff powr_minus divide_simps)
  also have "\<dots> \<le> \<bar>x\<bar> * 2 powr (- 53)"
    using binade_lower [OF assms] by (simp add: mult_right_mono)
  finally show ?thesis using fl_err [of x] by linarith
qed


lemma ulp_binade: "binade x = binade y \<Longrightarrow> ulp x = ulp y"
  by (simp add: ulp_def)

lemma pow52_ulp: "2 ^ 52 * ulp x = 2 powr of_int (binade x)"
proof -
  have "(2::real) ^ 52 = 2 powr 52" by simp
  hence "2 ^ 52 * ulp x = 2 powr 52 * 2 powr (of_int (binade x) - 52)"
    by (simp only: ulp_def)
  also have "\<dots> = 2 powr of_int (binade x)" by (simp only: powr_add [symmetric]) simp
  finally show ?thesis .
qed

lemma pow53_ulp: "2 ^ 53 * ulp x = 2 powr (of_int (binade x) + 1)"
proof -
  have "(2::real) ^ 53 = 2 powr 53" by simp
  hence "2 ^ 53 * ulp x = 2 powr 53 * 2 powr (of_int (binade x) - 52)"
    by (simp only: ulp_def)
  also have "\<dots> = 2 powr (of_int (binade x) + 1)"
    by (simp only: powr_add [symmetric]) (simp add: add.commute)
  finally show ?thesis .
qed

lemma ulp_le: "2 powr (- 1022) \<le> \<bar>x\<bar> \<Longrightarrow> ulp x \<le> \<bar>x\<bar> * 2 powr (- 52)"
proof -
  assume h: "2 powr (- 1022) \<le> \<bar>x\<bar>"
  have "ulp x = 2 powr of_int (binade x) * 2 powr (- 52)"
    by (simp only: ulp_def powr_add [symmetric]) simp
  also have "\<dots> \<le> \<bar>x\<bar> * 2 powr (- 52)"
    using binade_lower [OF h] by (simp add: mult_right_mono)
  finally show ?thesis .
qed

lemma fl_ge_pow2: "2 powr (- 1022) \<le> x \<Longrightarrow> 2 powr of_int (binade x) \<le> fl x"
proof -
  assume h: "2 powr (- 1022) \<le> x"
  hence p: "0 < x" by (rule above_power_of_two_pos)
  have "2 powr of_int (binade x) \<le> \<bar>x\<bar>" using binade_lower [of x] h p by simp
  hence "of_int (2 ^ 52) * ulp x \<le> x" using pow52_ulp [of x] p by simp
  hence "of_int (2 ^ 52) * ulp x \<le> fl x" using p by (rule fl_ge_grid [rotated])
  thus ?thesis using pow52_ulp [of x] by simp
qed

lemma fl_le_pow2: "0 < x \<Longrightarrow> fl x \<le> 2 powr (of_int (binade x) + 1)"
proof -
  assume p: "0 < x"
  have "x \<le> of_int (2 ^ 53) * ulp x" using binade_upper [of x] pow53_ulp [of x] p by simp
  hence "fl x \<le> of_int (2 ^ 53) * ulp x" using p by (rule fl_le_grid [rotated])
  thus ?thesis using pow53_ulp [of x] by simp
qed

lemma double_mantissa:
  assumes "fl s = s" and "s \<noteq> 0"
  shows "s = of_int (roundEven (s / ulp s)) * ulp s"
  using assms by (simp add: fl_def)

lemma fl_succ:
  assumes d: "fl s = s" and n: "2 powr (- 1022) \<le> s" and h: "s * (1 + 2 powr (- 52)) \<le> p"
  shows "s + ulp s \<le> fl p"
proof -
  have sp: "0 < s" using n by (rule above_power_of_two_pos)
  define m where "m = roundEven (s / ulp s)"
  have sm: "s = of_int m * ulp s" using double_mantissa [OF d] sp by (simp add: m_def)
  have "ulp s \<le> s * 2 powr (- 52)" using ulp_le [of s] n sp by simp
  hence ps: "s + ulp s \<le> p" using h by (simp add: algebra_simps)
  hence pp: "0 < p" using sp ulp_pos [of s] by linarith
  have "s \<le> p" using ps ulp_pos [of s] by linarith
  hence bm: "binade s \<le> binade p" using sp by (rule binade_mono [rotated])
  have grid: "s + ulp s = of_int (m + 1) * ulp s" using sm by (simp add: algebra_simps)
  show ?thesis
  proof (cases "binade p = binade s")
    case True
    hence u: "ulp p = ulp s" by (rule ulp_binade)
    have "of_int (m + 1) * ulp p \<le> p" using ps grid u by simp
    hence "of_int (m + 1) * ulp p \<le> fl p" using pp by (rule fl_ge_grid [rotated])
    thus ?thesis using grid u by simp
  next
    case False
    hence "binade s + 1 \<le> binade p" using bm by simp
    hence "(2::real) powr (of_int (binade s) + 1) \<le> 2 powr of_int (binade p)" by simp
    moreover have "2 powr (- 1022) \<le> p" using n \<open>s \<le> p\<close> by linarith
    hence "2 powr of_int (binade p) \<le> fl p" by (rule fl_ge_pow2)
    moreover have "s + ulp s \<le> 2 powr (of_int (binade s) + 1)"
    proof -
      have "s < 2 powr (of_int (binade s) + 1)" using binade_upper [of s] sp by simp
      hence "of_int m * ulp s < 2 ^ 53 * ulp s" using sm pow53_ulp [of s] by simp
      hence "(of_int m :: real) < 2 ^ 53" using ulp_pos [of s] by simp
      hence "m < 2 ^ 53" by (metis of_int_less_iff of_int_numeral of_int_power)
      hence "m + 1 \<le> 2 ^ 53" by simp
      hence "(of_int (m + 1) :: real) \<le> of_int (2 ^ 53)" by (simp only: of_int_le_iff)
      hence "of_int (m + 1) * ulp s \<le> of_int (2 ^ 53) * ulp s"
        using ulp_pos [of s] by (simp only: mult_le_cancel_right_pos)
      thus ?thesis using grid pow53_ulp [of s] by simp
    qed
    ultimately show ?thesis by linarith
  qed
qed

lemma fl_pred:
  assumes d: "fl s = s" and n: "2 powr (- 1022) \<le> s" and h: "p \<le> s * (1 - 2 powr (- 52))"
  shows "fl p \<le> s - ulp s"
proof -
  have sp: "0 < s" using n by (rule above_power_of_two_pos)
  define m where "m = roundEven (s / ulp s)"
  have sm: "s = of_int m * ulp s" using double_mantissa [OF d] sp by (simp add: m_def)
  have us: "ulp s \<le> s * 2 powr (- 52)" using ulp_le [of s] n sp by simp
  hence ps: "p \<le> s - ulp s" using h by (simp add: algebra_simps)
  have "(2::real) powr (- 52) \<le> 1" by (simp add: powr_neg_numeral)
  hence "s * 2 powr (- 52) \<le> s * 1" using sp by (simp only: mult_le_cancel_left_pos)
  hence nonneg: "0 \<le> s - ulp s" using us by simp
  show ?thesis
  proof (cases "p \<le> 0")
    case True
    thus ?thesis using fl_nonpos [of p] nonneg by linarith
  next
    case False
    hence pp: "0 < p" by simp
    have "p \<le> s" using ps ulp_pos [of s] by linarith
    hence bm: "binade p \<le> binade s" using pp by (rule binade_mono [rotated])
    define k where "k = nat (binade s - binade p)"
    have "of_int (binade s) - 52 = real k + (of_int (binade p) - 52)"
      using bm by (simp add: k_def)
    hence "ulp s = 2 powr real k * ulp p" by (simp only: ulp_def powr_add)
    hence u: "ulp s = 2 ^ k * ulp p" by (simp add: powr_realpow)
    have "s - ulp s = of_int (m - 1) * ulp s" using sm by (simp add: algebra_simps)
    hence grid: "s - ulp s = of_int ((m - 1) * 2 ^ k) * ulp p" using u by simp
    hence "p \<le> of_int ((m - 1) * 2 ^ k) * ulp p" using ps by simp
    hence "fl p \<le> of_int ((m - 1) * 2 ^ k) * ulp p" using pp by (rule fl_le_grid [rotated])
    thus ?thesis using grid by simp
  qed
qed

lemma fl_eval:
  assumes "2 ^ 52 \<le> \<bar>x\<bar> * 2 ^ j" and "\<bar>x\<bar> * 2 ^ j < 2 ^ 53" and "j \<le> 1074"
  shows "fl x = of_int (roundEven (x * 2 ^ j)) / 2 ^ j"
proof -
  have e: "(2::real) powr (- real j) = 1 / 2 ^ j" by (simp add: powr_minus powr_realpow divide_simps)
  have "(2::real) powr of_int (52 - int j) = 2 powr 52 * 2 powr (- real j)"
    by (simp only: powr_add [symmetric]) simp
  hence l: "(2::real) powr of_int (52 - int j) = 2 ^ 52 / 2 ^ j" using e by simp
  have "(2::real) powr (of_int (52 - int j) + 1) = 2 powr 53 * 2 powr (- real j)"
    by (simp only: powr_add [symmetric]) simp
  hence r: "(2::real) powr (of_int (52 - int j) + 1) = 2 ^ 53 / 2 ^ j" using e by simp
  have "2 powr of_int (52 - int j) \<le> \<bar>x\<bar>" unfolding l using assms(1) by (simp add: divide_simps)
  moreover have "\<bar>x\<bar> < 2 powr (of_int (52 - int j) + 1)"
    unfolding r using assms(2) by (simp add: divide_simps)
  ultimately have "binade x = 52 - int j" using assms(3) by (intro binade_eq) simp_all
  hence "ulp x = 2 powr (- real j)" by (simp add: ulp_def)
  hence u: "ulp x = 1 / 2 ^ j" using e by simp
  have "x \<noteq> 0" using assms(1) by auto
  thus ?thesis by (simp add: fl_def u)
qed

lemma fl_of_int: "\<bar>n\<bar> < 2 ^ 53 \<Longrightarrow> fl (of_int n) = of_int n"
proof (cases "n = 0")
  case True thus ?thesis by (simp add: fl_def)
next
  case False
  assume b: "\<bar>n\<bar> < 2 ^ 53"
  define x :: real where "x = of_int n"
  have x0: "x \<noteq> 0" using False by (simp add: x_def)
  have "\<bar>x\<bar> < 2 ^ 53" using b unfolding x_def
    by (metis of_int_abs of_int_less_iff of_int_numeral of_int_power)
  hence "\<bar>x\<bar> < 2 powr 53" by simp
  hence "log 2 \<bar>x\<bar> < 53" using x0 by (simp add: log_less_iff)
  hence "\<lfloor>log 2 \<bar>x\<bar>\<rfloor> < 53" by (simp add: floor_less_iff)
  hence bb: "binade x \<le> 52" by (simp add: binade_def)
  define k where "k = nat (52 - binade x)"
  have "of_int (binade x) - 52 = - real k" using bb by (simp add: k_def)
  hence "ulp x = 2 powr (- real k)" by (simp only: ulp_def)
  hence u: "ulp x = 1 / 2 ^ k" by (simp add: powr_minus powr_realpow divide_simps)
  have "x / ulp x = of_int (n * 2 ^ k)" unfolding u by (simp add: x_def)
  hence "roundEven (x / ulp x) = n * 2 ^ k" by (simp only: roundEven_of_int)
  hence "fl x = of_int (n * 2 ^ k) * ulp x" using x0 by (simp add: fl_def)
  hence "fl x = of_int (n * 2 ^ k) * (1 / 2 ^ k)" unfolding u .
  thus ?thesis by (simp add: x_def)
qed

lemma fl_1: "fl 1 = 1"
  using fl_of_int [of 1] by simp

lemma ulp_1: "ulp 1 = 2 powr (- 52)"
proof -
  have "binade 1 = 0" by (rule binade_eq) simp_all
  thus ?thesis by (simp add: ulp_def)
qed

lemma binade_pow: "- 1022 \<le> k \<Longrightarrow> binade (2 powr of_int k) = k"
  by (rule binade_eq) simp_all

lemma binade_ge_pow: "- 1022 \<le> k \<Longrightarrow> 2 powr of_int k \<le> x \<Longrightarrow> k \<le> binade x"
  using binade_mono [of "2 powr of_int k" x] by (simp add: binade_pow)

lemma binade_le_pow: "- 1022 \<le> k \<Longrightarrow> 0 < x \<Longrightarrow> x \<le> 2 powr of_int k \<Longrightarrow> binade x \<le> k"
  using binade_mono [of x "2 powr of_int k"] by (simp add: binade_pow)

lemma fl_ge_pow:
  assumes "- 1022 \<le> k" and "2 powr of_int k \<le> x"
  shows "2 powr of_int k \<le> fl x"
proof -
  have "(2::real) powr (- 1022) \<le> 2 powr of_int k" using assms(1) by simp
  hence "2 powr (- 1022) \<le> x" using assms(2) by linarith
  hence "2 powr of_int (binade x) \<le> fl x" by (rule fl_ge_pow2)
  moreover have "k \<le> binade x" using assms by (rule binade_ge_pow)
  hence "(2::real) powr of_int k \<le> 2 powr of_int (binade x)" by simp
  ultimately show ?thesis by linarith
qed

lemma fl_le_pow:
  assumes "- 1022 \<le> k" and "0 < x" and "x \<le> 2 powr of_int k"
  shows "fl x \<le> 2 powr of_int k"
proof -
  have b: "binade x \<le> k" using assms by (rule binade_le_pow)
  define j where "j = nat (k - binade x + 52)"
  have "real_of_int k = real j + (of_int (binade x) - 52)" using b by (simp add: j_def)
  hence "2 powr of_int k = 2 powr real j * ulp x" by (simp only: ulp_def powr_add)
  hence e: "2 powr of_int k = of_int (2 ^ j) * ulp x" by (simp add: powr_realpow)
  hence "x \<le> of_int (2 ^ j) * ulp x" using assms(3) by simp
  hence "fl x \<le> of_int (2 ^ j) * ulp x" using assms(2) by (rule fl_le_grid [rotated])
  thus ?thesis using e by simp
qed

lemma roundEven_mono: "a \<le> b \<Longrightarrow> roundEven a \<le> roundEven b"
proof -
  assume ab: "a \<le> b"
  have fa: "of_int \<lfloor>a\<rfloor> \<le> a" "a < of_int \<lfloor>a\<rfloor> + 1" by linarith+
  have fb: "of_int \<lfloor>b\<rfloor> \<le> b" "b < of_int \<lfloor>b\<rfloor> + 1" by linarith+
  have fl: "\<lfloor>a\<rfloor> \<le> \<lfloor>b\<rfloor>" using ab by (rule floor_mono)
  show ?thesis
  proof (cases "\<lfloor>a\<rfloor> = \<lfloor>b\<rfloor>")
    case True
    thus ?thesis using ab by (auto simp add: roundEven_def Let_def)
  next
    case False
    hence "\<lfloor>a\<rfloor> + 1 \<le> \<lfloor>b\<rfloor>" using fl by simp
    moreover have "roundEven a \<le> \<lfloor>a\<rfloor> + 1" by (simp add: roundEven_def Let_def)
    moreover have "\<lfloor>b\<rfloor> \<le> roundEven b" by (simp add: roundEven_def Let_def)
    ultimately show ?thesis by linarith
  qed
qed

lemma fl_mono_pos:
  assumes "0 < x" and "x \<le> y"
  shows "fl x \<le> fl y"
proof (cases "binade x = binade y")
  case True
  hence u: "ulp x = ulp y" by (rule ulp_binade)
  have "x / ulp y \<le> y / ulp y" using assms(2) ulp_pos [of y] by (simp add: divide_right_mono)
  hence "roundEven (x / ulp y) \<le> roundEven (y / ulp y)" by (rule roundEven_mono)
  hence "(of_int (roundEven (x / ulp y)) :: real) \<le> of_int (roundEven (y / ulp y))" by simp
  hence "of_int (roundEven (x / ulp y)) * ulp y \<le> of_int (roundEven (y / ulp y)) * ulp y"
    using ulp_pos [of y] by (simp add: mult_right_mono)
  thus ?thesis using assms by (simp add: fl_def u)
next
  case False
  have "binade x \<le> binade y" using assms by (rule binade_mono)
  hence lt: "binade x + 1 \<le> binade y" using False by simp
  hence "- 1022 < binade y" using binade_ge [of x] by linarith
  hence "- 1022 < \<lfloor>log 2 \<bar>y\<bar>\<rfloor>" unfolding binade_def by linarith
  hence "- 1022 \<le> log 2 \<bar>y\<bar>" by linarith
  moreover have "0 < y" using assms by linarith
  ultimately have "2 powr (- 1022) \<le> y" by (simp add: le_log_iff)
  hence "2 powr of_int (binade y) \<le> fl y" by (rule fl_ge_pow2)
  moreover have "fl x \<le> 2 powr (of_int (binade x) + 1)" using assms(1) by (rule fl_le_pow2)
  moreover have "(2::real) powr (of_int (binade x) + 1) \<le> 2 powr of_int (binade y)"
    using lt by (simp add: add.commute)
  ultimately show ?thesis by linarith
qed

lemma roundEven_minus: "roundEven (- z) = - roundEven z"
proof (cases "z = of_int \<lfloor>z\<rfloor>")
  case True
  then obtain n where "z = of_int n" ..
  thus ?thesis by (simp add: roundEven_of_int flip: of_int_minus)
next
  case False
  hence c: "\<lfloor>- z\<rfloor> = - \<lfloor>z\<rfloor> - 1" by (simp add: floor_minus ceiling_altdef)
  have "of_int \<lfloor>z\<rfloor> \<le> z" "z < of_int \<lfloor>z\<rfloor> + 1" by linarith+
  thus ?thesis using False by (auto simp add: roundEven_def Let_def c)
qed

lemma fl_minus: "fl (- x) = - fl x"
proof -
  have "binade (- x) = binade x" by (simp add: binade_def)
  hence "ulp (- x) = ulp x" by (rule ulp_binade)
  thus ?thesis by (simp add: fl_def roundEven_minus)
qed

lemma fl_mono:
  assumes "x \<le> y"
  shows "fl x \<le> fl y"
proof -
  consider "0 < x" | "x \<le> 0" "0 \<le> y" | "y < 0" by linarith
  thus ?thesis
  proof cases
    case 1
    thus ?thesis using assms by (rule fl_mono_pos)
  next
    case 2
    thus ?thesis using fl_nonpos [of x] fl_nonneg [of y] by linarith
  next
    case 3
    hence "0 < - y" "- y \<le> - x" using assms by simp_all
    hence "fl (- y) \<le> fl (- x)" by (rule fl_mono_pos)
    thus ?thesis by (simp add: fl_minus)
  qed
qed

text \<open>
  \<open>binade\<close> and \<open>ulp\<close> by halving and doubling, which makes \<open>fl\<close> computable on
  rational arguments.
\<close>

lemma binade_code [code]:
  "binade x =
     (if x = 0 then 0
      else if 2 \<le> \<bar>x\<bar> then binade (x / 2) + 1
      else if 1 \<le> \<bar>x\<bar> then 0
      else max (binade (x * 2) - 1) (- 1022))"
proof -
  consider "x = 0" | "2 \<le> \<bar>x\<bar>" | "1 \<le> \<bar>x\<bar>" "\<bar>x\<bar> < 2" | "x \<noteq> 0" "\<bar>x\<bar> < 1"
    by fastforce
  thus ?thesis
  proof cases
    case 1
    thus ?thesis by (simp add: binade_def log_def)
  next
    case 2
    hence x0: "x \<noteq> 0" by auto
    define k where "k = \<lfloor>log 2 \<bar>x\<bar>\<rfloor>"
    have "log 2 \<bar>x / 2\<bar> = log 2 \<bar>x\<bar> - 1" using x0 by (simp add: log_divide)
    hence "\<lfloor>log 2 \<bar>x / 2\<bar>\<rfloor> = k - 1" by (simp add: k_def)
    hence b2: "binade (x / 2) = max (k - 1) (- 1022)" by (simp only: binade_def)
    have b1: "binade x = max k (- 1022)" by (simp only: binade_def k_def)
    have "1 \<le> log 2 \<bar>x\<bar>" using 2 by (simp add: le_log_iff)
    hence k1: "1 \<le> k" unfolding k_def by (simp only: le_floor_iff of_int_1)
    show ?thesis unfolding b1 b2 using 2 x0 k1 by simp
  next
    case 3
    hence "binade x = 0" by (intro binade_eq) simp_all
    thus ?thesis using 3 by simp
  next
    case 4
    define k where "k = \<lfloor>log 2 \<bar>x\<bar>\<rfloor>"
    have "log 2 \<bar>x * 2\<bar> = log 2 \<bar>x\<bar> + 1" using 4 by (simp add: abs_mult log_mult)
    hence "\<lfloor>log 2 \<bar>x * 2\<bar>\<rfloor> = k + 1" by (simp add: k_def)
    hence b2: "binade (x * 2) = max (k + 1) (- 1022)" by (simp only: binade_def)
    have b1: "binade x = max k (- 1022)" by (simp only: binade_def k_def)
    have "\<not> 2 \<le> \<bar>x\<bar>" "\<not> 1 \<le> \<bar>x\<bar>" using 4 by simp_all
    thus ?thesis unfolding b1 b2 using 4(1) by simp
  qed
qed

lemma ulp_code [code]:
  "ulp x = (if 52 \<le> binade x then 2 ^ nat (binade x - 52) else 1 / 2 ^ nat (52 - binade x))"
proof -
  have "ulp x = 2 powr real_of_int (binade x - 52)" by (simp add: ulp_def)
  also have "\<dots> = (if 0 \<le> binade x - 52 then 2 ^ nat (binade x - 52)
                     else 1 / 2 ^ nat (- (binade x - 52)))"
    by (rule powr_int) simp
  finally show ?thesis by simp
qed

lemma fl_60000: "fl 60000 = 60000"
  using fl_of_int [of 60000] by simp

subsection \<open>Break-even\<close>

lemma tiny_le_one: "(2::real) powr (- 1022) \<le> 1"
  using powr_le_cancel_iff [of 2 "- 1022" 0] by simp

lemma one_plus: "2 powr (- 52) \<le> r \<Longrightarrow> 1 + 2 powr (- 52) \<le> fl (1 + r)"
  using fl_succ [of 1 "1 + r"] tiny_le_one by (simp add: fl_1 ulp_1)

lemma one_minus: "2 powr (- 52) \<le> r \<Longrightarrow> fl (1 + - r) \<le> 1 - 2 powr (- 52)"
  using fl_pred [of 1 "1 + - r"] tiny_le_one by (simp add: fl_1 ulp_1)

lemma call_above:
  assumes d: "fl strike = strike" and n: "2 powr (- 1022) \<le> strike" and r: "2 powr (- 52) \<le> r"
  shows "strike < fl (strike * fl (1 + r))"
proof -
  have sp: "0 < strike" using n by (rule above_power_of_two_pos)
  have "strike * (1 + 2 powr (- 52)) \<le> strike * fl (1 + r)"
    using one_plus [OF r] sp by (simp only: mult_le_cancel_left_pos)
  hence "strike + ulp strike \<le> fl (strike * fl (1 + r))" by (rule fl_succ [OF d n])
  thus ?thesis using ulp_pos [of strike] by linarith
qed

lemma put_below:
  assumes d: "fl strike = strike" and n: "2 powr (- 1022) \<le> strike" and r: "2 powr (- 52) \<le> r"
  shows "fl (strike * fl (1 + - r)) < strike"
proof -
  have sp: "0 < strike" using n by (rule above_power_of_two_pos)
  have "strike * fl (1 + - r) \<le> strike * (1 - 2 powr (- 52))"
    using one_minus [OF r] sp by (simp only: mult_le_cancel_left_pos)
  hence "fl (strike * fl (1 + - r)) \<le> strike - ulp strike" by (rule fl_pred [OF d n])
  thus ?thesis using ulp_pos [of strike] by linarith
qed

lemma percent_rounded:
  assumes "2 powr (- 45) \<le> roiPct"
  shows "2 powr (- 52) \<le> fl (roiPct / 100)"
proof -
  have "(2::real) powr (- 52) = 2 powr (- 45) / 128" by (simp add: powr_neg_numeral)
  also have "\<dots> \<le> 2 powr (- 45) / 100" by (simp add: powr_neg_numeral)
  also have "\<dots> \<le> roiPct / 100" using assms by simp
  finally have "2 powr of_int (- 52) \<le> roiPct / 100" by simp
  hence "2 powr of_int (- 52) \<le> fl (roiPct / 100)" by (intro fl_ge_pow) simp_all
  thus ?thesis by simp
qed

text \<open>
  Claim C9, as stated, fails: an ROI above zero that is small against 1 is lost when it
  is added to 1, so the break-even is the strike itself. With the strike 60000 and the ROI
  \<open>2 ^ -60\<close> both break-evens equal the strike.
\<close>

theorem breakEven_equals_strike:
  "calculateBreakEven 60000 (1 / 2 ^ 60) ''CALL'' = 60000
   \<and> calculateBreakEven 60000 (1 / 2 ^ 60) ''PUT'' = 60000
   \<and> \<not> calculateBreakEven 60000 (1 / 2 ^ 60) ''CALL'' > 60000
   \<and> \<not> 60000 > calculateBreakEven 60000 (1 / 2 ^ 60) ''PUT''"
proof -
  have a: "fl (1 + 1 / 2 ^ 60) = 1"
    using fl_eval [of "1 + 1 / 2 ^ 60" 52] by (simp add: roundEven_def)
  have b: "fl (1 + - (1 / 2 ^ 60)) = 1"
    using fl_eval [of "1 + - (1 / 2 ^ 60)" 53] by (simp add: roundEven_def)
  show ?thesis using a b by (simp add: calculateBreakEven_def fl_60000)
qed

text \<open>
  Claim C9, amended. For every strike price that is a double from \<open>2 ^ -1022\<close> upwards
  (a normal number) and every ROI of at least \<open>2 ^ -52\<close>, the distance from 1 to the next
  double, the CALL break-even of \<open>calculateBreakEven\<close> lies strictly above the strike and
  the PUT break-even strictly below it; likewise for \<open>computeBreakEven\<close> of the filter
  pipeline, whose ROI is a percentage, from \<open>2 ^ -45\<close> percent upwards.
\<close>

theorem breakEven_brackets_strike:
  assumes "isDouble strike" and "1 / 2 ^ 1022 \<le> strike" and "1 / 2 ^ 52 \<le> roi"
    and "1 / 2 ^ 45 \<le> roiPct"
  shows "calculateBreakEven strike roi ''CALL'' > strike
       \<and> strike > calculateBreakEven strike roi ''PUT''
       \<and> computeBreakEven strike ''CALL'' roiPct > strike
       \<and> strike > computeBreakEven strike ''PUT'' roiPct"
proof -
  have d: "fl strike = strike" using assms(1) by (simp add: isDouble_def)
  have n: "2 powr (- 1022) \<le> strike" using assms(2) by (simp add: powr_neg_numeral)
  have r: "2 powr (- 52) \<le> roi" using assms(3) by (simp add: powr_neg_numeral)
  have "2 powr (- 45) \<le> roiPct" using assms(4) by (simp add: powr_neg_numeral)
  hence p: "2 powr (- 52) \<le> fl (roiPct / 100)" by (rule percent_rounded)
  show ?thesis
    using call_above [OF d n r] put_below [OF d n r] call_above [OF d n p] put_below [OF d n p]
    by (simp add: calculateBreakEven_def computeBreakEven_def Let_def)
qed

theorem breakEven_brackets_strike_witness:
  "isDouble 60000
   \<and> calculateBreakEven 60000 (1/128) ''CALL'' > 60000
   \<and> 60000 > calculateBreakEven 60000 (1/128) ''PUT''
   \<and> computeBreakEven 60000 ''CALL'' 1 > 60000
   \<and> 60000 > computeBreakEven 60000 ''PUT'' 1"
proof -
  have d: "isDouble 60000" by (simp add: isDouble_def fl_60000)
  show ?thesis
    using breakEven_brackets_strike [OF d, of "1/128" 1] d by simp
qed

text \<open>
  The bound on the ROI is within a factor of two of the least possible: at \<open>2 ^ -53\<close>,
  half the distance from 1 to the next double, the sum is a tie that goes back to 1.
\<close>

lemma breakEven_threshold: "calculateBreakEven 60000 (1 / 2 ^ 53) ''CALL'' = 60000"
proof -
  have "fl (1 + 1 / 2 ^ 53) = 1"
    using fl_eval [of "1 + 1 / 2 ^ 53" 52] by (simp add: roundEven_def)
  thus ?thesis by (simp add: calculateBreakEven_def fl_60000)
qed

subsection \<open>ROI curves\<close>





lemma longTerm_above_one:
  assumes "1 < d"
  shows "longTermROI_calculate d = 7/10 + (sqrt d - 1) / 50 + 3 * ln d / 2"
  using assms by (simp add: longTermROI_calculate_def sqrtGrowthRate_def logSustainFactor_def Let_def)





text \<open>
  At one day the long-term curve returns the constant 1.0, which the formula reaches
  again only after 1.2 days, so a fractional argument just above 1, which no caller
  passes, gives a lower value.
\<close>

lemma longTermROI_between_whole_days: "longTermROI_calculate (11/10) < longTermROI_calculate 1"
proof -
  have a: "ln (11/10 :: real) \<le> 1/10"
    using ln_add_one_self_le_self [of "1/10::real"] by simp
  have "sqrt (11/10) \<le> sqrt ((11/10)\<^sup>2)"
    by (rule real_sqrt_le_mono) (simp add: power2_eq_square)
  then have b: "sqrt (11/10) \<le> 11/10" by simp
  have one: "longTermROI_calculate 1 = 1" by (simp add: longTermROI_calculate_def)
  have e: "longTermROI_calculate (11/10) = 7/10 + (sqrt (11/10) - 1) / 50 + 3 * ln (11/10) / 2"
    by (rule longTerm_above_one) simp
  show ?thesis
    unfolding e one using a b by argo
qed

subsection \<open>Lot-size precision\<close>

lemma stripZeros_zero: "stripZeros m 0 = (m, 0)"
  by (simp add: stripZeros.simps)

lemma stripZeros_step:
  "k \<noteq> 0 \<Longrightarrow> m mod 10 = 0 \<Longrightarrow> stripZeros m k = stripZeros (m div 10) (k - 1)"
  by (subst stripZeros.simps) simp

lemma stripZeros_stop: "k \<noteq> 0 \<Longrightarrow> m mod 10 \<noteq> 0 \<Longrightarrow> stripZeros m k = (m, k)"
  by (subst stripZeros.simps) simp

lemma numDigits_small: "n < 10 \<Longrightarrow> numDigits n = 1"
  by (simp add: numDigits.simps)

lemma numDigits_large: "\<not> n < 10 \<Longrightarrow> numDigits n = Suc (numDigits (n div 10))"
  by (subst numDigits.simps) simp

lemmas decimal_eval = countDecimals_def stripZeros_zero stripZeros_step stripZeros_stop
  numDigits_small numDigits_large

lemma stripZeros_value:
  "stripZeros m k = (m', k') \<Longrightarrow> real m' / 10 ^ k' = real m / 10 ^ k"
proof (induction m k rule: stripZeros.induct)
  case (1 m k)
  show ?case
  proof (cases "k = 0")
    case True
    then show ?thesis using 1(2) by (simp add: stripZeros_zero)
  next
    case k: False
    show ?thesis
    proof (cases "m mod 10 = 0")
      case True
      then have "stripZeros (m div 10) (k - 1) = (m', k')"
        using 1(2) k by (simp add: stripZeros_step)
      then have "real m' / 10 ^ k' = real (m div 10) / 10 ^ (k - 1)"
        using 1(1) k True by simp
      moreover have "real (m div 10) = real m / 10"
        using True by (simp add: real_of_nat_div mod_eq_0_iff_dvd)
      moreover have "(10::real) ^ k = 10 * 10 ^ (k - 1)"
        using k by (cases k) simp_all
      ultimately show ?thesis by simp
    next
      case False
      then show ?thesis using 1(2) k by (simp add: stripZeros_stop)
    qed
  qed
qed

lemma stripZeros_normal:
  "stripZeros m k = (m', k') \<Longrightarrow> k' = 0 \<or> m' mod 10 \<noteq> 0"
proof (induction m k rule: stripZeros.induct)
  case (1 m k)
  then show ?case
    by (cases "k = 0"; cases "m mod 10 = 0")
       (auto simp: stripZeros_zero stripZeros_step stripZeros_stop)
qed

lemma power_cancel_less:
  fixes m j d :: nat
  assumes "m * 10 ^ j = 10 ^ (j + Suc d)"
  shows "m = 10 * 10 ^ d"
proof -
  have "(10::nat) ^ (j + Suc d) = (10 * 10 ^ d) * 10 ^ j"
    by (simp only: power_add power_Suc mult.commute)
  then have "m * 10 ^ j = (10 * 10 ^ d) * 10 ^ j"
    using assms by (simp only:)
  then show ?thesis
    by (simp only: mult_cancel2) simp
qed

lemma power_cancel_greater:
  fixes m k d :: nat
  assumes "m * 10 ^ (k + Suc d) = 10 ^ k"
  shows False
proof -
  have "(10::nat) ^ (k + Suc d) = (10 * 10 ^ d) * 10 ^ k"
    by (simp only: power_add power_Suc mult.commute)
  then have "(m * (10 * 10 ^ d)) * 10 ^ k = 1 * 10 ^ k"
    using assms by (simp only: mult.assoc mult_1)
  then have "m * (10 * 10 ^ d) = 1"
    by (simp only: mult_cancel2) simp
  then have "(10::nat) = 1"
    by (simp only: nat_mult_eq_1_iff)
  then show False by simp
qed

lemma power_cancel_equal:
  fixes m j :: nat
  assumes "m * 10 ^ j = 10 ^ j"
  shows "m = 1"
proof -
  have "m * 10 ^ j = 1 * 10 ^ j"
    using assms by (simp only: mult_1)
  then show ?thesis
    by (simp only: mult_cancel2) simp
qed

lemma power_of_ten_normal_form:
  fixes m k j :: nat
  assumes eq: "m * 10 ^ j = 10 ^ k" and nf: "k = 0 \<or> m mod 10 \<noteq> 0"
  shows "m = 1 \<and> k = j"
proof -
  consider "j < k" | "k < j" | "k = j" by linarith
  then show ?thesis
  proof cases
    case 1
    define d where "d = k - j - 1"
    have k: "k = j + Suc d"
      using 1 by (simp add: d_def)
    have "m * 10 ^ j = 10 ^ (j + Suc d)"
      using eq by (simp only: k)
    then have "m = 10 * 10 ^ d"
      by (rule power_cancel_less)
    then have "m mod 10 = 0" by simp
    moreover have "k \<noteq> 0" using k by simp
    ultimately show ?thesis using nf by simp
  next
    case 2
    define d where "d = j - k - 1"
    have j: "j = k + Suc d"
      using 2 by (simp add: d_def)
    have "m * 10 ^ (k + Suc d) = 10 ^ k"
      using eq by (simp only: j)
    then have False
      by (rule power_cancel_greater)
    then show ?thesis ..
  next
    case 3
    have "m * 10 ^ j = 10 ^ j"
      using eq by (simp only: 3)
    then have "m = 1"
      by (rule power_cancel_equal)
    then show ?thesis using 3 by simp
  qed
qed

lemma countDecimals_power_of_ten:
  assumes "value_of s = 1 / 10 ^ j"
  shows "countDecimals s = (if j \<le> 6 then j else 0)"
proof -
  obtain m k where st: "stripZeros (mantissa s) (places s) = (m, k)"
    by (cases "stripZeros (mantissa s) (places s)") 
  have "real m / 10 ^ k = 1 / 10 ^ j"
    using stripZeros_value [OF st] assms by (simp add: value_of_def)
  then have "real m * 10 ^ j = 10 ^ k"
    by (simp add: field_simps)
  then have "real (m * 10 ^ j) = real (10 ^ k)" by simp
  then have "m * 10 ^ j = 10 ^ k" by (simp only: of_nat_eq_iff)
  then have mk: "m = 1 \<and> k = j"
    using stripZeros_normal [OF st] by (rule power_of_ten_normal_form)
  show ?thesis
    using mk by (auto simp: countDecimals_def st numDigits_small)
qed

lemma toFixed_recovers:
  assumes "0 \<le> y" and "\<bar>y * 10 ^ d - of_int F\<bar> < 1/2"
  shows "toFixed d y = of_int F / 10 ^ d"
proof (cases "y = 0")
  case True
  hence "\<bar>(of_int F :: real)\<bar> < 1" using assms(2) by simp
  hence "\<bar>F\<bar> < 1" by (metis of_int_abs of_int_less_iff of_int_1)
  hence "F = 0" by simp
  thus ?thesis using True by (simp add: toFixed_def)
next
  case False
  hence p: "0 < y" using assms(1) by simp
  have "of_int F \<le> y * 10 ^ d + 1/2" and "y * 10 ^ d + 1/2 < of_int F + 1"
    using assms(2) by linarith+
  hence "\<lfloor>y * 10 ^ d + 1/2\<rfloor> = F" by (rule floor_unique)
  thus ?thesis using p by (simp add: toFixed_def)
qed

lemma tiny_le_power_of_ten:
  assumes "d \<le> 22"
  shows "(2::real) powr (- 1022) \<le> 1 / 10 ^ d"
proof -
  have e: "(2::real) powr (- 1022) = 1 / 2 ^ 1022" by (rule powr_neg_numeral) simp
  have "(10::real) ^ d \<le> 10 ^ 22" using assms by (intro power_increasing) simp_all
  also have "(10::real) ^ 22 \<le> 16 ^ 22" by (intro power_mono) simp_all
  also have "(16::real) ^ 22 = 2 ^ 88" by simp
  also have "(2::real) ^ 88 \<le> 2 ^ 1022" by (intro power_increasing) simp_all
  finally have "(10::real) ^ d \<le> 2 ^ 1022" .
  hence "1 / (2::real) ^ 1022 \<le> 1 / 10 ^ d" by (intro divide_left_mono) simp_all
  thus ?thesis unfolding e .
qed

lemma quotient_rounded:
  assumes "0 \<le> F" and "F \<le> 2 ^ 51" and "d \<le> 22"
  shows "\<bar>fl (of_int F / 10 ^ d) * 10 ^ d - of_int F\<bar> < 1/2"
proof (cases "F = 0")
  case True
  thus ?thesis by (simp add: fl_def)
next
  case False
  hence one: "1 \<le> F" using assms(1) by simp
  define y where "y = (of_int F :: real) / 10 ^ d"
  have yF: "y * 10 ^ d = of_int F" by (simp add: y_def)
  have "1 / 10 ^ d \<le> y" unfolding y_def using one by (intro divide_right_mono) simp_all
  hence low: "2 powr (- 1022) \<le> y" using tiny_le_power_of_ten [OF assms(3)] by linarith
  hence yp: "0 < y" by (rule above_power_of_two_pos)
  have "\<bar>fl y - y\<bar> \<le> \<bar>y\<bar> * 2 powr (- 53)" using low yp by (intro fl_rel_err) simp
  hence "\<bar>fl y - y\<bar> * 10 ^ d \<le> (y * 2 powr (- 53)) * 10 ^ d"
    using yp by (intro mult_right_mono) simp_all
  moreover have "\<bar>fl y * 10 ^ d - y * 10 ^ d\<bar> = \<bar>fl y - y\<bar> * 10 ^ d"
    by (simp add: abs_mult left_diff_distrib [symmetric])
  moreover have "(y * 2 powr (- 53)) * 10 ^ d = of_int F * 2 powr (- 53)"
    using yF by (simp add: mult.commute mult.left_commute)
  moreover have "(of_int F :: real) \<le> 2 ^ 51"
    using assms(2) by (metis of_int_le_iff of_int_numeral of_int_power)
  hence "(of_int F :: real) * 2 powr (- 53) \<le> 2 ^ 51 * 2 powr (- 53)"
    by (intro mult_right_mono) simp_all
  moreover have "(2::real) ^ 51 * 2 powr (- 53) = 1/4" by (simp add: powr_neg_numeral)
  ultimately have "\<bar>fl y * 10 ^ d - of_int F\<bar> \<le> 1/4" using yF by linarith
  thus ?thesis unfolding y_def by linarith
qed

lemma fl_le_2_51: "0 \<le> x \<Longrightarrow> x \<le> 2 ^ 51 \<Longrightarrow> fl x \<le> 2 ^ 51"
proof (cases "x = 0")
  case True thus ?thesis by (simp add: fl_def)
next
  case False
  assume "0 \<le> x" "x \<le> 2 ^ 51"
  thus ?thesis using False fl_le_pow [of 51 x] by simp
qed

lemma adjust_exact:
  assumes "0 \<le> q" and "countDecimals s \<le> 22" and "q * 10 ^ countDecimals s \<le> 2 ^ 51"
  shows "adjustQuantityToLotSize q s
           = of_int \<lfloor>fl (q * 10 ^ countDecimals s)\<rfloor> / 10 ^ countDecimals s"
proof -
  define d where "d = countDecimals s"
  define F where "F = \<lfloor>fl (q * 10 ^ d)\<rfloor>"
  have x0: "0 \<le> q * 10 ^ d" using assms(1) by simp
  have "0 \<le> fl (q * 10 ^ d)" using x0 by (rule fl_nonneg)
  hence F0: "0 \<le> F" by (simp add: F_def)
  have "fl (q * 10 ^ d) \<le> 2 ^ 51" using x0 assms(3) unfolding d_def by (rule fl_le_2_51)
  hence "F \<le> \<lfloor>(2::real) ^ 51\<rfloor>" unfolding F_def by (rule floor_mono)
  hence F1: "F \<le> 2 ^ 51" by simp
  have d22: "d \<le> 22" using assms(2) by (simp add: d_def)
  have "0 \<le> (of_int F :: real) / 10 ^ d" using F0 by simp
  hence "0 \<le> fl (of_int F / 10 ^ d)" by (rule fl_nonneg)
  hence "toFixed d (fl (of_int F / 10 ^ d)) = of_int F / 10 ^ d"
    using quotient_rounded [OF F0 F1 d22] by (rule toFixed_recovers)
  thus ?thesis
    by (simp add: adjustQuantityToLotSize_def Let_def d_def F_def)
qed

lemma floor_fl_bounds:
  assumes "0 \<le> x"
  shows "of_int \<lfloor>fl x\<rfloor> \<le> x * (1 + 2 powr (- 53))"
    and "x * (1 - 2 powr (- 53)) - 1 < of_int \<lfloor>fl x\<rfloor>"
proof -
  have e: "0 < (2::real) powr (- 53)" "(2::real) powr (- 53) \<le> 1"
    by (simp_all add: powr_neg_numeral)
  have "of_int \<lfloor>fl x\<rfloor> \<le> x * (1 + 2 powr (- 53))
        \<and> x * (1 - 2 powr (- 53)) - 1 < of_int \<lfloor>fl x\<rfloor>"
  proof (cases "2 powr (- 1022) \<le> x")
    case True
    hence r: "\<bar>fl x - x\<bar> \<le> \<bar>x\<bar> * 2 powr (- 53)" using assms by (intro fl_rel_err) simp
    define t where "t = x * 2 powr (- 53)"
    have "\<bar>fl x - x\<bar> \<le> t" using r assms by (simp add: t_def)
    hence b: "fl x \<le> x + t" "x - t \<le> fl x" by (simp_all add: abs_le_iff)
    have f: "of_int \<lfloor>fl x\<rfloor> \<le> fl x" "fl x - 1 < of_int \<lfloor>fl x\<rfloor>" by linarith+
    have "x * (1 + 2 powr (- 53)) = x + t" and "x * (1 - 2 powr (- 53)) = x - t"
      by (simp_all add: algebra_simps t_def)
    thus ?thesis using f b by (simp only:) linarith
  next
    case False
    hence small: "x < 2 powr (- 1022)" by simp
    have one: "(2::real) powr (- 1022) < 1" by (simp add: powr_neg_numeral)
    have "fl x \<le> 2 powr (- 1022)"
    proof (cases "x = 0")
      case True thus ?thesis by (simp add: fl_def)
    next
      case False
      hence "0 < x" using assms by simp
      thus ?thesis using fl_le_pow [of "- 1022" x] small by simp
    qed
    hence "fl x < 1" using one by linarith
    moreover have "0 \<le> fl x" using assms by (rule fl_nonneg)
    ultimately have "\<lfloor>fl x\<rfloor> = 0" by (intro floor_unique) simp_all
    moreover have "0 \<le> x * (1 + 2 powr (- 53))" using assms e by simp
    moreover have "x * (1 - 2 powr (- 53)) \<le> x * 1"
      using assms e by (intro mult_left_mono) simp_all
    hence "x * (1 - 2 powr (- 53)) - 1 < 0" using small one by linarith
    ultimately show ?thesis by simp
  qed
  thus "of_int \<lfloor>fl x\<rfloor> \<le> x * (1 + 2 powr (- 53))"
    and "x * (1 - 2 powr (- 53)) - 1 < of_int \<lfloor>fl x\<rfloor>" by simp_all
qed

lemma multiple_of_power_of_ten:
  assumes "value_of s = 1 / 10 ^ j"
  shows "integerMultiple (of_int F / 10 ^ countDecimals s) (value_of s)"
proof (cases "j \<le> 6")
  case True
  hence "(of_int F :: real) / 10 ^ countDecimals s / value_of s = of_int F"
    using assms by (simp add: countDecimals_power_of_ten)
  thus ?thesis by (simp add: integerMultiple_def)
next
  case False
  hence "(of_int F :: real) / 10 ^ countDecimals s / value_of s = of_int (F * 10 ^ j)"
    using assms by (simp add: countDecimals_power_of_ten)
  thus ?thesis unfolding integerMultiple_def by (simp only: frac_of_int)
qed

text \<open>
  Claim C8, as stated, fails in two ways. The result is a multiple of the last decimal
  that the step size prints, not of the step size: with step 0.5 the quantity 0.7 (the
  double \<open>3152519739159347 / 2 ^ 52\<close>) is returned as 0.7, which is no multiple of 0.5.
  And the product \<open>quantity * factor\<close> is rounded before it is floored: with step 0.1 the
  quantity 0.8999999999999999 (the double \<open>2026619832316723 / 2 ^ 51\<close>) times 10 rounds
  to 9, and the result 0.9 is above the quantity.
\<close>

theorem adjustQuantityToLotSize_not_multiple_and_rounded_up:
  "adjustQuantityToLotSize (3152519739159347 / 2 ^ 52) (Decimal 5 1) = 7/10
   \<and> value_of (Decimal 5 1) = 1/2
   \<and> \<not> integerMultiple (adjustQuantityToLotSize (3152519739159347 / 2 ^ 52) (Decimal 5 1))
         (value_of (Decimal 5 1))
   \<and> adjustQuantityToLotSize (2026619832316723 / 2 ^ 51) (Decimal 1 1) = 9/10
   \<and> value_of (Decimal 1 1) = 1/10
   \<and> 2026619832316723 / 2 ^ 51 < adjustQuantityToLotSize (2026619832316723 / 2 ^ 51) (Decimal 1 1)"
proof -
  have d5: "countDecimals (Decimal 5 1) = 1" and d1: "countDecimals (Decimal 1 1) = 1"
    by (simp_all add: decimal_eval)
  have f7: "fl (3152519739159347 / 2 ^ 52 * 10 ^ 1) = 7"
    using fl_eval [of "3152519739159347 / 2 ^ 52 * 10 ^ 1" 50] by (simp add: roundEven_def)
  have f9: "fl (2026619832316723 / 2 ^ 51 * 10 ^ 1) = 9"
    using fl_eval [of "2026619832316723 / 2 ^ 51 * 10 ^ 1" 49] by (simp add: roundEven_def)
  have a: "adjustQuantityToLotSize (3152519739159347 / 2 ^ 52) (Decimal 5 1) = 7/10"
    using adjust_exact [of "3152519739159347 / 2 ^ 52" "Decimal 5 1", unfolded d5] f7 by simp
  have b: "adjustQuantityToLotSize (2026619832316723 / 2 ^ 51) (Decimal 1 1) = 9/10"
    using adjust_exact [of "2026619832316723 / 2 ^ 51" "Decimal 1 1", unfolded d1] f9 by simp
  show ?thesis
    unfolding a b by (simp add: value_of_def integerMultiple_def frac_def)
qed

text \<open>
  The two quantities are the doubles that the literals \<open>0.7\<close> and \<open>0.8999999999999999\<close>
  denote.
\<close>

lemma literal_doubles:
  "fl (7/10) = 3152519739159347 / 2 ^ 52"
  "fl (8999999999999999 / 10 ^ 16) = 2026619832316723 / 2 ^ 51"
proof -
  show "fl (7/10) = 3152519739159347 / 2 ^ 52"
    using fl_eval [of "7/10" 53] by (simp add: roundEven_def)
  show "fl (8999999999999999 / 10 ^ 16) = 2026619832316723 / 2 ^ 51"
    using fl_eval [of "8999999999999999 / 10 ^ 16" 53] by (simp add: roundEven_def)
qed

text \<open>
  Claim C8, amended. For every quantity \<open>q \<ge> 0\<close> and every step size that prints \<open>d\<close>
  decimals, \<open>d\<close> at most 22 and \<open>q * 10 ^ d\<close> at most \<open>2 ^ 51\<close>, the result is the rounded
  product \<open>q * 10 ^ d\<close> cut off to an integer, taken as a number of units of the last
  decimal: \<open>toFixed\<close> and the division do not change it. It is not negative, above \<open>q\<close> by
  no more than the rounding of one multiplication (one part in \<open>2 ^ 53\<close>), below \<open>q\<close> by
  less than one unit of the last decimal and that rounding, and an integer multiple of
  that unit. When the step size is \<open>1 / 10 ^ j\<close> (1, 0.1, 0.01 and so on) the result is an
  integer multiple of the step size.
\<close>

theorem adjustQuantityToLotSize_truncates:
  fixes q :: real and s :: decimal
  defines "d \<equiv> countDecimals s"
  assumes "0 \<le> q" and "d \<le> 22" and "q * 10 ^ d \<le> 2 ^ 51"
  shows "adjustQuantityToLotSize q s = of_int \<lfloor>fl (q * 10 ^ d)\<rfloor> / 10 ^ d
       \<and> 0 \<le> adjustQuantityToLotSize q s
       \<and> adjustQuantityToLotSize q s \<le> q * (1 + 1 / 2 ^ 53)
       \<and> q * (1 - 1 / 2 ^ 53) - 1 / 10 ^ d < adjustQuantityToLotSize q s
       \<and> integerMultiple (adjustQuantityToLotSize q s) (1 / 10 ^ d)
       \<and> (\<forall>j. value_of s = 1 / 10 ^ j \<longrightarrow>
             integerMultiple (adjustQuantityToLotSize q s) (value_of s))"
proof -
  define F where "F = \<lfloor>fl (q * 10 ^ d)\<rfloor>"
  have x0: "0 \<le> q * 10 ^ d" using assms(2) by simp
  have e: "adjustQuantityToLotSize q s = of_int F / 10 ^ d"
    unfolding F_def d_def using assms(2-4) unfolding d_def by (rule adjust_exact)
  have p: "(2::real) powr (- 53) = 1 / 2 ^ 53" by (simp add: powr_neg_numeral)
  have "0 \<le> fl (q * 10 ^ d)" using x0 by (rule fl_nonneg)
  hence F0: "0 \<le> F" by (simp add: F_def)
  have up: "of_int F \<le> q * 10 ^ d * (1 + 1 / 2 ^ 53)"
    and lo: "q * 10 ^ d * (1 - 1 / 2 ^ 53) - 1 < of_int F"
    using floor_fl_bounds [OF x0] unfolding F_def p by simp_all
  have "of_int F / 10 ^ d \<le> q * 10 ^ d * (1 + 1 / 2 ^ 53) / 10 ^ d"
    using up by (intro divide_right_mono) simp_all
  hence upper: "of_int F / 10 ^ d \<le> q * (1 + 1 / 2 ^ 53)" by simp
  have "(q * 10 ^ d * (1 - 1 / 2 ^ 53) - 1) / 10 ^ d < of_int F / 10 ^ d"
    using lo by (intro divide_strict_right_mono) simp_all
  hence lower: "q * (1 - 1 / 2 ^ 53) - 1 / 10 ^ d < of_int F / 10 ^ d"
    by (simp add: diff_divide_distrib)
  have "(of_int F :: real) / 10 ^ d / (1 / 10 ^ d) = of_int F" by simp
  hence grid: "integerMultiple (of_int F / 10 ^ d) (1 / 10 ^ d)"
    unfolding integerMultiple_def by (simp only: frac_of_int)
  have step: "\<forall>j. value_of s = 1 / 10 ^ j \<longrightarrow> integerMultiple (of_int F / 10 ^ d) (value_of s)"
    unfolding d_def using multiple_of_power_of_ten by blast
  have nonneg: "0 \<le> (of_int F :: real) / 10 ^ d" using F0 by simp
  show ?thesis
    unfolding e using nonneg upper lower grid step by (simp add: F_def)
qed

theorem adjustQuantityToLotSize_truncates_witness:
  "countDecimals (Decimal 100000 8) = 3
   \<and> value_of (Decimal 100000 8) = 1 / 10 ^ 3
   \<and> adjustQuantityToLotSize (79/64) (Decimal 100000 8) = 1234/1000
   \<and> 79/64 * (1 - 1 / 2 ^ 53) - 1 / 10 ^ 3 < adjustQuantityToLotSize (79/64) (Decimal 100000 8)
   \<and> adjustQuantityToLotSize (79/64) (Decimal 100000 8) \<le> 79/64 * (1 + 1 / 2 ^ 53)
   \<and> integerMultiple (adjustQuantityToLotSize (79/64) (Decimal 100000 8)) (value_of (Decimal 100000 8))"
proof -
  have c: "countDecimals (Decimal 100000 8) = 3" by (simp add: decimal_eval)
  have v: "value_of (Decimal 100000 8) = 1 / 10 ^ 3" by (simp add: value_of_def)
  have e: "fl (79/64 * 10 ^ 3) = 9875/8"
    using fl_eval [of "79/64 * 10 ^ 3" 42] by (simp add: roundEven_def)
  have f: "\<lfloor>fl (79/64 * 10 ^ 3)\<rfloor> = 1234" unfolding e by simp
  have h: "(0::real) \<le> 79/64" "countDecimals (Decimal 100000 8) \<le> 22"
    "79/64 * 10 ^ countDecimals (Decimal 100000 8) \<le> (2::real) ^ 51"
    by (simp_all add: c)
  have r: "adjustQuantityToLotSize (79/64) (Decimal 100000 8) = 1234/1000"
    using adjustQuantityToLotSize_truncates [OF h, unfolded c f] by simp
  show ?thesis
    unfolding r by (simp add: c value_of_def integerMultiple_def)
qed

text \<open>The hedge amount of the example position, on the lot step 0.00001.\<close>

lemma demo_quantity: "adjustQuantityToLotSize (5/4) (Decimal 1000 8) = 5/4"
proof -
  have c: "countDecimals (Decimal 1000 8) = 5" by (simp add: decimal_eval)
  have f: "fl 125000 = 125000" using fl_of_int [of 125000] by simp
  show ?thesis
    using adjust_exact [of "5/4" "Decimal 1000 8", unfolded c] f by simp
qed

subsection \<open>Hedge execution and the ledger\<close>

lemmas hedge_eval = demoPosition_def demoIo_def demoLedger_def demoState_def demoHedgedState_def
  updatePositions_def loadHedgeStatus_def getHedgeStatus_def positionEntry_def
  monitorAndHedge_def executeHedge_def openCrossMarginPosition_def getSymbolInfo_def
  updatePosition_def demo_quantity numOr_def ledgerStatus_def
  hedgeOrderResult_def Let_def

lemma openCrossMarginPosition_cases:
  "openCrossMarginPosition w s symbol side amount = (None, s)
   \<or> (\<exists>data params. openCrossMarginPosition w s symbol side amount
          = (Some data, s\<lparr>marginOrders := marginOrders s @ [params]\<rparr>))"
  by (auto simp: openCrossMarginPosition_def Let_def split: option.splits)

lemma getHedgeStatus_updatePosition:
  "getHedgeStatus (updatePosition w s position (Some h)) (pos_id position) = h"
  by (simp add: getHedgeStatus_def updatePosition_def Let_def)

lemma ledgerStatus_updatePosition:
  "io_writeOk w \<Longrightarrow> ledgerStatus (updatePosition w s position (Some h)) (pos_id position) = Some h"
  by (simp add: ledgerStatus_def updatePosition_def Let_def)

lemma marginOrders_updatePosition:
  "marginOrders (updatePosition w s position h) = marginOrders s"
  by (simp add: updatePosition_def Let_def)

lemma executeHedge_rejected:
  assumes "hedgeOrderResult w s position symbol = None"
  shows "executeHedge w s position symbol spotPrice breakEven target = (position, s)"
proof -
  let ?side = "if pos_optionType position = ''PUT'' then ''SELL'' else ''BUY''"
  let ?amount = "pos_subscriptionAmount position * 0.5"
  from openCrossMarginPosition_cases [of w s symbol ?side ?amount] assms
  have "openCrossMarginPosition w s symbol ?side ?amount = (None, s)"
    by (auto simp: hedgeOrderResult_def)
  then show ?thesis
    by (simp add: executeHedge_def Let_def)
qed

lemma executeHedge_accepted:
  assumes "hedgeOrderResult w s position symbol \<noteq> None"
  shows "\<exists>params. executeHedge w s position symbol spotPrice breakEven target
           = (position\<lparr>pos_hedgeStatus := target\<rparr>,
              updatePosition w (s\<lparr>marginOrders := marginOrders s @ [params]\<rparr>)
                (position\<lparr>pos_hedgeStatus := target\<rparr>) (Some target))"
proof -
  let ?side = "if pos_optionType position = ''PUT'' then ''SELL'' else ''BUY''"
  let ?amount = "pos_subscriptionAmount position * 0.5"
  from openCrossMarginPosition_cases [of w s symbol ?side ?amount] assms
  obtain data params where
    "openCrossMarginPosition w s symbol ?side ?amount
       = (Some data, s\<lparr>marginOrders := marginOrders s @ [params]\<rparr>)"
    by (auto simp: hedgeOrderResult_def)
  then have "executeHedge w s position symbol spotPrice breakEven target
           = (position\<lparr>pos_hedgeStatus := target\<rparr>,
              updatePosition w (s\<lparr>marginOrders := marginOrders s @ [params]\<rparr>)
                (position\<lparr>pos_hedgeStatus := target\<rparr>) (Some target))"
    by (simp add: executeHedge_def Let_def)
  then show ?thesis by blast
qed

text \<open>
  Claim C2, amended. \<open>executeHedge\<close> leaves the position and the state exactly as they were
  if and only if the margin-order call returns \<open>null\<close>. When the call returns an order
  result, the position object and the in-memory ledger carry the target status, the
  ledger file carries it when the write succeeds, and the exchange holds exactly one more
  order. The function does not look at the status the position already has.
\<close>

theorem executeHedge_records_iff_order_accepted:
  fixes w s position symbol spotPrice breakEven target
  defines "E \<equiv> executeHedge w s position symbol spotPrice breakEven target"
  shows "(hedgeOrderResult w s position symbol = None \<longleftrightarrow> E = (position, s))
       \<and> (hedgeOrderResult w s position symbol \<noteq> None \<longrightarrow>
            pos_hedgeStatus (fst E) = target
          \<and> getHedgeStatus (snd E) (pos_id position) = target
          \<and> (io_writeOk w \<longrightarrow> ledgerStatus (snd E) (pos_id position) = Some target)
          \<and> length (marginOrders (snd E)) = Suc (length (marginOrders s)))"
proof (cases "hedgeOrderResult w s position symbol = None")
  case True
  then show ?thesis
    unfolding E_def by (simp add: executeHedge_rejected)
next
  case False
  then obtain params where e:
    "E = (position\<lparr>pos_hedgeStatus := target\<rparr>,
          updatePosition w (s\<lparr>marginOrders := marginOrders s @ [params]\<rparr>)
            (position\<lparr>pos_hedgeStatus := target\<rparr>) (Some target))"
    unfolding E_def using executeHedge_accepted by blast
  have len: "length (marginOrders (snd E)) = Suc (length (marginOrders s))"
    by (simp add: e marginOrders_updatePosition)
  then have "snd E \<noteq> s" by auto
  then have ne: "E \<noteq> (position, s)" by auto
  have st: "getHedgeStatus (snd E) (pos_id position) = target"
    using getHedgeStatus_updatePosition [of w _ "position\<lparr>pos_hedgeStatus := target\<rparr>" target]
    by (simp add: e)
  have led: "io_writeOk w \<longrightarrow> ledgerStatus (snd E) (pos_id position) = Some target"
    using ledgerStatus_updatePosition [of w _ "position\<lparr>pos_hedgeStatus := target\<rparr>" target]
    by (simp add: e)
  have ps: "pos_hedgeStatus (fst E) = target"
    by (simp add: e)
  show ?thesis
    using False ne ps st led len by blast
qed

lemma demo_order_accepted:
  "hedgeOrderResult demoIo demoState demoPosition ''BTCUSDT'' = Some (OrderAck 1)"
  by (simp add: hedge_eval)

lemma demo_order_rejected:
  "hedgeOrderResult (demoIo\<lparr>io_marginOrder := (\<lambda>order. None)\<rparr>) demoState demoPosition ''BTCUSDT'' = None"
  by (simp add: hedge_eval)

theorem executeHedge_records_iff_order_accepted_witness:
  "hedgeOrderResult demoIo demoState demoPosition ''BTCUSDT'' \<noteq> None
   \<and> io_writeOk demoIo
   \<and> pos_hedgeStatus (fst (executeHedge demoIo demoState demoPosition ''BTCUSDT'' (Some 59000) 63000 STEP1)) = STEP1
   \<and> ledgerStatus (snd (executeHedge demoIo demoState demoPosition ''BTCUSDT'' (Some 59000) 63000 STEP1)) ''1001'' = Some STEP1
   \<and> hedgeOrderResult (demoIo\<lparr>io_marginOrder := (\<lambda>order. None)\<rparr>) demoState demoPosition ''BTCUSDT'' = None
   \<and> executeHedge (demoIo\<lparr>io_marginOrder := (\<lambda>order. None)\<rparr>) demoState demoPosition ''BTCUSDT'' (Some 59000) 63000 STEP1
       = (demoPosition, demoState)"
proof -
  have w: "io_writeOk demoIo" by (simp add: demoIo_def)
  have i: "pos_id demoPosition = ''1001''" by (simp add: demoPosition_def)
  show ?thesis
    using executeHedge_records_iff_order_accepted
            [of demoIo demoState demoPosition "''BTCUSDT''" "Some 59000" 63000 STEP1]
          executeHedge_records_iff_order_accepted
            [of "demoIo\<lparr>io_marginOrder := (\<lambda>order. None)\<rparr>" demoState demoPosition "''BTCUSDT''"
                "Some 59000" 63000 STEP1]
          demo_order_accepted demo_order_rejected w i
    by simp
qed

text \<open>
  Claim C2, as stated, fails in its last part: a hedge is not at most once per position
  and target status. A second \<open>executeHedge\<close> for a position that the first call has
  already recorded as \<open>STEP1\<close>, again with target \<open>STEP1\<close>, places a second order.
\<close>

theorem executeHedge_repeats_for_same_target:
  "pos_hedgeStatus (fst demoFirstHedge) = STEP1
   \<and> getHedgeStatus (snd demoFirstHedge) ''1001'' = STEP1
   \<and> marginOrders (snd demoFirstHedge) =
       [\<lparr>mo_symbol = ''BTCUSDT'', mo_side = ''SELL'', mo_quantity = 5/4, mo_timestamp = 1000000\<rparr>]
   \<and> pos_hedgeStatus (fst demoSecondHedge) = STEP1
   \<and> marginOrders (snd demoSecondHedge) =
       [\<lparr>mo_symbol = ''BTCUSDT'', mo_side = ''SELL'', mo_quantity = 5/4, mo_timestamp = 1000000\<rparr>,
        \<lparr>mo_symbol = ''BTCUSDT'', mo_side = ''SELL'', mo_quantity = 5/4, mo_timestamp = 1180000\<rparr>]"
  by (simp add: demoFirstHedge_def demoSecondHedge_def hedge_eval decimal_eval)


text \<open>
  The reconciliation of the cycle loses a status without any hedge: a cycle whose position
  fetch fails rewrites \<open>positions.log\<close> from the empty position list, and the next cycle
  loads the position, held as \<open>FULL\<close> before, as \<open>NONE\<close>.
\<close>

lemma ledger_status_lost_after_failed_fetch:
  "ledgerStatus demoHedgedState ''1001'' = Some FULL
   \<and> ledgerStatus (updatePositions (demoIo\<lparr>io_fetchPositions := None\<rparr>) demoHedgedState) ''1001'' = None
   \<and> map pos_hedgeStatus
        (positions (updatePositions demoIo (updatePositions (demoIo\<lparr>io_fetchPositions := None\<rparr>) demoHedgedState)))
       = [NONE]"
  by (simp add: hedge_eval)














subsection \<open>The cycle and its stop conditions\<close>

lemma positions_updateSpotBalances: "positions (updateSpotBalances w s) = positions s"
  by (simp add: updateSpotBalances_def)

lemma length_positions_updatePositions:
  "length (positions (updatePositions w s))
     = (case io_fetchPositions w of None \<Rightarrow> 0 | Some ps \<Rightarrow> length ps)"
  by (simp add: updatePositions_def Let_def split: option.splits)

text \<open>
  Claim C5. With \<open>s2\<close> the state after the two updates of the cycle: when the number of
  active positions has reached the global cap, or the number of hedged positions has
  reached the hedged cap, \<open>mainLoop\<close> logs and calls \<open>process.exit(0)\<close>, which ends the
  process and not only the cycle. With the configured cap of 30 and 30 positions reported
  by the exchange the exit is the one of the global cap, and the guard of \<open>runExecution\<close>
  would skip execution in that state.
\<close>

theorem mainLoop_stops_at_caps:
  fixes maxTotal w s
  defines "s2 \<equiv> updateSpotBalances w (updatePositions w s)"
  defines "hedgedCount \<equiv> length (filter (\<lambda>pos. pos_hedgeStatus pos \<noteq> NONE) (positions s2))"
  shows "(real (length (positions s2)) \<ge> maxTotal \<or> int hedgedCount \<ge> \<lfloor>maxTotal\<rfloor>
            \<longrightarrow> (\<exists>message. mainLoop maxTotal w s = ([Log message, ProcessExit 0], s2)))
       \<and> (io_fetchPositions w = Some ps \<and> length ps = 30
            \<longrightarrow> mainLoop MAX_TOTAL_POSITIONS w s = ([Log MaxPositionsStoppingProgram, ProcessExit 0], s2)
              \<and> runExecution MAX_TOTAL_POSITIONS s2 rest = None)"
proof -
  have caps: "\<exists>message. mainLoop maxTotal w s = ([Log message, ProcessExit 0], s2)"
    if "real (length (positions s2)) \<ge> maxTotal \<or> int hedgedCount \<ge> \<lfloor>maxTotal\<rfloor>"
    using that unfolding s2_def hedgedCount_def mainLoop_def Let_def by auto
  have thirty: "mainLoop MAX_TOTAL_POSITIONS w s = ([Log MaxPositionsStoppingProgram, ProcessExit 0], s2)
              \<and> runExecution MAX_TOTAL_POSITIONS s2 rest = None"
    if "io_fetchPositions w = Some ps" and "length ps = 30"
  proof -
    have "length (positions s2) = 30"
      using that by (simp add: s2_def positions_updateSpotBalances length_positions_updatePositions)
    then show ?thesis
      unfolding s2_def mainLoop_def runExecution_def Let_def MAX_TOTAL_POSITIONS_def by simp
  qed
  show ?thesis
    using caps thirty by blast
qed

theorem mainLoop_stops_at_caps_witness:
  "real (length (positions (updateSpotBalances (demoIo\<lparr>io_fetchPositions := Some (replicate 30 demoPosition)\<rparr>)
            (updatePositions (demoIo\<lparr>io_fetchPositions := Some (replicate 30 demoPosition)\<rparr>) demoState))))
      \<ge> MAX_TOTAL_POSITIONS
   \<and> io_fetchPositions (demoIo\<lparr>io_fetchPositions := Some (replicate 30 demoPosition)\<rparr>)
        = Some (replicate 30 demoPosition)
   \<and> length (replicate 30 demoPosition) = 30
   \<and> fst (mainLoop MAX_TOTAL_POSITIONS (demoIo\<lparr>io_fetchPositions := Some (replicate 30 demoPosition)\<rparr>) demoState)
        = [Log MaxPositionsStoppingProgram, ProcessExit 0]"
proof -
  let ?w = "demoIo\<lparr>io_fetchPositions := Some (replicate 30 demoPosition)\<rparr>"
  have f: "io_fetchPositions ?w = Some (replicate 30 demoPosition)" by simp
  have l: "length (replicate 30 demoPosition) = 30" by simp
  have c: "real (length (positions (updateSpotBalances ?w (updatePositions ?w demoState))))
             \<ge> MAX_TOTAL_POSITIONS"
    by (simp add: positions_updateSpotBalances length_positions_updatePositions MAX_TOTAL_POSITIONS_def)
  show ?thesis
    using mainLoop_stops_at_caps
            [of MAX_TOTAL_POSITIONS ?w demoState "replicate 30 demoPosition" "()"] f l c
    by simp
qed

text \<open>
  Claim C10. For an integer \<open>MAX_TOTAL_POSITIONS\<close> the exit of the hedged-position cap
  never fires: \<open>mainLoop\<close> either emits nothing or takes the exit of the global cap. The
  hedged count is at most the number of active positions, which is below the cap once the
  first check has passed, and the hedged cap is the floor of the same number.
\<close>

theorem hedged_cap_exit_unreachable:
  assumes "maxTotal \<in> \<int>"
  shows "fst (mainLoop maxTotal w s) = [] 
       \<or> fst (mainLoop maxTotal w s) = [Log MaxPositionsStoppingProgram, ProcessExit 0]"
proof -
  obtain k :: int where k: "maxTotal = of_int k"
    using assms by (auto elim: Ints_cases)
  let ?ps = "positions (updateSpotBalances w (updatePositions w s))"
  let ?h = "length (filter (\<lambda>pos. pos_hedgeStatus pos \<noteq> NONE) ?ps)"
  show ?thesis
  proof (cases "real (length ?ps) \<ge> maxTotal")
    case True
    then show ?thesis by (simp add: mainLoop_def Let_def)
  next
    case False
    then have "int (length ?ps) < k" using k by simp
    moreover have "int ?h \<le> int (length ?ps)" by simp
    moreover have "\<lfloor>maxTotal\<rfloor> = k" using k by simp
    ultimately have "\<not> int ?h \<ge> \<lfloor>maxTotal\<rfloor>" by linarith
    then show ?thesis using False by (simp add: mainLoop_def Let_def)
  qed
qed

text \<open>
  The integer hypothesis matters: with a cap of 30.5 and 30 positions, all hedged, the
  first check passes and the hedged-cap exit fires.
\<close>

lemma hedged_cap_exit_with_fractional_cap:
  "fst (mainLoop (61/2) (demoIo\<lparr>io_fetchPositions := Some (replicate 30 demoPosition)\<rparr>)
         (demoState\<lparr>positionsFile :=
            Content (\<lambda>positionId. Some (positionEntry demoIo (demoPosition\<lparr>pos_hedgeStatus := STEP1\<rparr>)))\<rparr>))
     = [Log (MaxHedgedPositionsStoppingProgram 30 30), ProcessExit 0]"
  by (simp add: mainLoop_def updateSpotBalances_def updatePositions_def loadHedgeStatus_def
        getHedgeStatus_def positionEntry_def demoIo_def demoState_def demoPosition_def Let_def)

theorem hedged_cap_exit_unreachable_witness:
  "MAX_TOTAL_POSITIONS \<in> \<int>
   \<and> fst (mainLoop MAX_TOTAL_POSITIONS demoIo demoState) = []"
proof -
  have i: "MAX_TOTAL_POSITIONS \<in> \<int>" by (simp add: MAX_TOTAL_POSITIONS_def)
  have "fst (mainLoop MAX_TOTAL_POSITIONS demoIo demoState) \<noteq> [Log MaxPositionsStoppingProgram, ProcessExit 0]"
    by (simp add: mainLoop_def updateSpotBalances_def updatePositions_def demoIo_def Let_def
          MAX_TOTAL_POSITIONS_def)
  then show ?thesis
    using hedged_cap_exit_unreachable [OF i, of demoIo demoState] i by simp
qed

subsection \<open>The lock of the cron trigger\<close>

lemma safeRun_enter_locked:
  "cronLock c \<Longrightarrow> safeRun_enter c = (False, c\<lparr>cronLog := cronLog c @ [SkippingOverlappingCronRun]\<rparr>)"
  by (simp add: safeRun_enter_def)

lemma safeRun_settle_releases: "\<not> cronLock (snd (safeRun_settle r c))"
  by (simp add: safeRun_settle_def split: task_result.splits thrown.splits)

lemma taskRuns_safeRun_settle: "taskRuns (snd (safeRun_settle r c)) = taskRuns c"
  by (simp add: safeRun_settle_def split: task_result.splits thrown.splits)

lemma cronRun_dropped_triggers:
  "cronLock c \<Longrightarrow>
     cronLock (cronRun c (replicate n Trigger))
     \<and> taskRuns (cronRun c (replicate n Trigger)) = taskRuns c"
proof (induction n arbitrary: c)
  case 0
  then show ?case by (simp add: cronRun_def)
next
  case (Suc n)
  let ?c1 = "c\<lparr>cronLog := cronLog c @ [SkippingOverlappingCronRun]\<rparr>"
  have step: "cronRun c (replicate (Suc n) Trigger) = cronRun ?c1 (replicate n Trigger)"
    using Suc.prems by (simp add: cronRun_def safeRun_enter_locked)
  have "cronLock ?c1" using Suc.prems by simp
  then have "cronLock (cronRun ?c1 (replicate n Trigger))
             \<and> taskRuns (cronRun ?c1 (replicate n Trigger)) = taskRuns ?c1"
    by (rule Suc.IH)
  then show ?case unfolding step by simp
qed

text \<open>
  Claim C6. While the lock is set, \<open>safeRun\<close> returns at once: the task is not called and
  the state keeps no trace of the invocation but the log line, so nothing is queued. The
  continuation after the task releases the lock however the task settled (resolved,
  rejected with an error, rejected with \<open>null\<close>). From a free lock, one trigger, any number
  \<open>n\<close> of triggers that fire while the task runs, and the settling of the task leave the
  lock free with the task called exactly once.
\<close>

theorem safeRun_drops_overlap_and_releases_lock:
  "(cronLock c \<longrightarrow>
      safeRun r c = (RunSkipped, c\<lparr>cronLog := cronLog c @ [SkippingOverlappingCronRun]\<rparr>)
    \<and> cronStep c Trigger = c\<lparr>cronLog := cronLog c @ [SkippingOverlappingCronRun]\<rparr>)
   \<and> \<not> cronLock (snd (safeRun_settle r c))
   \<and> (\<not> cronLock c \<longrightarrow>
        \<not> cronLock (snd (safeRun r c)) \<and> taskRuns (snd (safeRun r c)) = Suc (taskRuns c)
      \<and> \<not> cronLock (cronRun c (Trigger # replicate n Trigger @ [TaskSettled r]))
      \<and> taskRuns (cronRun c (Trigger # replicate n Trigger @ [TaskSettled r])) = Suc (taskRuns c))"
proof -
  have locked: "safeRun r c = (RunSkipped, c\<lparr>cronLog := cronLog c @ [SkippingOverlappingCronRun]\<rparr>)
                \<and> cronStep c Trigger = c\<lparr>cronLog := cronLog c @ [SkippingOverlappingCronRun]\<rparr>"
    if "cronLock c"
    using that by (simp add: safeRun_def safeRun_enter_locked)
  have free: "\<not> cronLock (snd (safeRun r c)) \<and> taskRuns (snd (safeRun r c)) = Suc (taskRuns c)
      \<and> \<not> cronLock (cronRun c (Trigger # replicate n Trigger @ [TaskSettled r]))
      \<and> taskRuns (cronRun c (Trigger # replicate n Trigger @ [TaskSettled r])) = Suc (taskRuns c)"
    if nl: "\<not> cronLock c"
  proof -
    let ?c1 = "c\<lparr>cronLock := True, taskRuns := Suc (taskRuns c)\<rparr>"
    have enter: "safeRun_enter c = (True, ?c1)"
      using nl by (simp add: safeRun_enter_def)
    have a: "\<not> cronLock (snd (safeRun r c))"
      by (simp add: safeRun_def enter safeRun_settle_releases)
    have b: "taskRuns (snd (safeRun r c)) = Suc (taskRuns c)"
      by (simp add: safeRun_def enter taskRuns_safeRun_settle)
    let ?c2 = "cronRun ?c1 (replicate n Trigger)"
    have l1: "cronLock ?c1" by simp
    have c2: "cronLock ?c2 \<and> taskRuns ?c2 = taskRuns ?c1"
      using l1 by (rule cronRun_dropped_triggers)
    have run: "cronRun c (Trigger # replicate n Trigger @ [TaskSettled r])
                 = snd (safeRun_settle r ?c2)"
      using c2 by (simp add: cronRun_def enter)
    have c: "\<not> cronLock (cronRun c (Trigger # replicate n Trigger @ [TaskSettled r]))"
      by (simp only: run safeRun_settle_releases not_False_eq_True)
    have d: "taskRuns (cronRun c (Trigger # replicate n Trigger @ [TaskSettled r])) = Suc (taskRuns c)"
      using c2 by (simp only: run taskRuns_safeRun_settle) simp
    show ?thesis using a b c d by blast
  qed
  show ?thesis
    using locked free safeRun_settle_releases by blast
qed

theorem safeRun_drops_overlap_and_releases_lock_witness:
  "cronLock \<lparr>cronLock = True, taskRuns = 1, cronLog = []\<rparr>
   \<and> safeRun Resolved \<lparr>cronLock = True, taskRuns = 1, cronLog = []\<rparr>
       = (RunSkipped, \<lparr>cronLock = True, taskRuns = 1, cronLog = [SkippingOverlappingCronRun]\<rparr>)
   \<and> \<not> cronLock \<lparr>cronLock = False, taskRuns = 0, cronLog = []\<rparr>
   \<and> cronRun \<lparr>cronLock = False, taskRuns = 0, cronLog = []\<rparr>
        (Trigger # replicate 2 Trigger @ [TaskSettled (Rejected (ErrorValue ''timeout''))])
       = \<lparr>cronLock = False, taskRuns = 1,
          cronLog = [SkippingOverlappingCronRun, SkippingOverlappingCronRun, CronTaskFailed ''timeout'']\<rparr>"
proof -
  have r: "cronRun \<lparr>cronLock = False, taskRuns = 0, cronLog = []\<rparr>
        (Trigger # replicate 2 Trigger @ [TaskSettled (Rejected (ErrorValue ''timeout''))])
       = \<lparr>cronLock = False, taskRuns = 1,
          cronLog = [SkippingOverlappingCronRun, SkippingOverlappingCronRun, CronTaskFailed ''timeout'']\<rparr>"
    by (simp add: cronRun_def safeRun_enter_def safeRun_settle_def numeral_2_eq_2)
  show ?thesis
    using safeRun_drops_overlap_and_releases_lock
            [of "\<lparr>cronLock = True, taskRuns = 1, cronLog = []\<rparr>" Resolved 0]
          safeRun_drops_overlap_and_releases_lock
            [of "\<lparr>cronLock = False, taskRuns = 0, cronLog = []\<rparr>" "Rejected (ErrorValue ''timeout'')" 2]
          r
    by simp
qed

subsection \<open>Collateral resolver\<close>

lemma insertBy_BTC_last:
  "fst x = ''BTC'' \<Longrightarrow> insertBy compareBorrowingBTC x ys = ys @ [x]"
  by (induction ys) (auto simp: compareBorrowingBTC_def split: prod.splits)

lemma insertBy_before_BTC:
  assumes "fst x \<noteq> ''BTC''" and "\<forall>a \<in> set as. fst a \<noteq> ''BTC''" and "\<forall>b \<in> set bs. fst b = ''BTC''"
  shows "insertBy compareBorrowingBTC x (as @ bs) = insort_key priorityOf x as @ bs"
  using assms
proof (induction as)
  case Nil
  then show ?case
    by (cases bs) (auto simp: compareBorrowingBTC_def split: prod.splits)
next
  case (Cons a as)
  then show ?case
    by (auto simp: compareBorrowingBTC_def priorityOf_def split: prod.splits)
qed

lemma sortBy_Cons: "sortBy compare (x # xs) = insertBy compare x (sortBy compare xs)"
  by (simp add: sortBy_def)

lemma sortBy_Nil: "sortBy compare [] = []"
  by (simp add: sortBy_def)

lemma sortBy_BTC_last:
  assumes "distinct (map fst xs)"
  shows "sortBy compareBorrowingBTC xs
           = sort_key priorityOf (filter (\<lambda>e. fst e \<noteq> ''BTC'') xs) @ filter (\<lambda>e. fst e = ''BTC'') xs"
  using assms
proof (induction xs)
  case Nil
  then show ?case by (simp add: sortBy_Nil)
next
  case (Cons x xs)
  then have ih: "sortBy compareBorrowingBTC xs
           = sort_key priorityOf (filter (\<lambda>e. fst e \<noteq> ''BTC'') xs) @ filter (\<lambda>e. fst e = ''BTC'') xs"
    by simp
  show ?case
  proof (cases "fst x = ''BTC''")
    case True
    then have "\<forall>e \<in> set xs. fst e \<noteq> ''BTC''"
      using Cons.prems by force
    then have none: "filter (\<lambda>e. fst e = ''BTC'') xs = []"
      by (simp add: filter_empty_conv)
    show ?thesis
      using True by (simp add: sortBy_Cons ih none insertBy_BTC_last)
  next
    case False
    have "insertBy compareBorrowingBTC x
            (sort_key priorityOf (filter (\<lambda>e. fst e \<noteq> ''BTC'') xs) @ filter (\<lambda>e. fst e = ''BTC'') xs)
          = insort_key priorityOf x (sort_key priorityOf (filter (\<lambda>e. fst e \<noteq> ''BTC'') xs))
              @ filter (\<lambda>e. fst e = ''BTC'') xs"
      using False by (intro insertBy_before_BTC) auto
    then show ?thesis
      using False by (simp add: sortBy_Cons ih)
  qed
qed

lemma insertBy_BTC_first:
  "fst x = ''BTC'' \<Longrightarrow> insertBy compareBorrowingOther x ys = x # ys"
  by (cases ys) (auto simp: compareBorrowingOther_def split: prod.splits)

lemma insertBy_after_BTC:
  assumes "fst x \<noteq> ''BTC''" and "\<forall>b \<in> set bs. fst b = ''BTC''" and "\<forall>a \<in> set as. fst a \<noteq> ''BTC''"
  shows "insertBy compareBorrowingOther x (bs @ as) = bs @ insort_key priorityOf x as"
  using assms
proof (induction bs)
  case Nil
  then show ?case
  proof (induction as)
    case Nil
    then show ?case by simp
  next
    case (Cons a as)
    then show ?case
      by (auto simp: compareBorrowingOther_def priorityOf_def split: prod.splits)
  qed
next
  case (Cons b bs)
  then show ?case
    by (auto simp: compareBorrowingOther_def split: prod.splits)
qed

lemma sortBy_BTC_first:
  "sortBy compareBorrowingOther xs
     = filter (\<lambda>e. fst e = ''BTC'') xs @ sort_key priorityOf (filter (\<lambda>e. fst e \<noteq> ''BTC'') xs)"
proof (induction xs)
  case Nil
  then show ?case by (simp add: sortBy_Nil)
next
  case (Cons x xs)
  show ?case
  proof (cases "fst x = ''BTC''")
    case True
    then show ?thesis
      by (simp add: sortBy_Cons Cons.IH insertBy_BTC_first)
  next
    case False
    have "insertBy compareBorrowingOther x
            (filter (\<lambda>e. fst e = ''BTC'') xs @ sort_key priorityOf (filter (\<lambda>e. fst e \<noteq> ''BTC'') xs))
          = filter (\<lambda>e. fst e = ''BTC'') xs
              @ insort_key priorityOf x (sort_key priorityOf (filter (\<lambda>e. fst e \<noteq> ''BTC'') xs))"
      using False by (intro insertBy_after_BTC) auto
    then show ?thesis
      using False by (simp add: sortBy_Cons Cons.IH)
  qed
qed

lemma borrowParams_coins:
  "br_collateralCoin (borrowParams x coin amount collateralCoin collateralConfig p q) = collateralCoin
   \<and> br_loanCoin (borrowParams x coin amount collateralCoin collateralConfig p q) = coin"
  by (simp add: borrowParams_def Let_def)

lemma candidateRequest_coins:
  "candidateRequest x coin amount candidate = Some r \<Longrightarrow>
     br_collateralCoin r = fst candidate \<and> br_loanCoin r = coin"
  by (auto simp: candidateRequest_def borrowParams_coins split: option.splits)

lemma borrowLoop_skip:
  assumes "candidateRequest x coin amount (collateralCoin, collateralConfig) = None"
  shows "borrowLoop x coin amount ((collateralCoin, collateralConfig) # rest)
           = borrowLoop x coin amount rest"
proof -
  obtain currentPrice collateralPrice where pr:
    "borrowPrices x coin collateralCoin = (currentPrice, collateralPrice)"
    by (cases "borrowPrices x coin collateralCoin")
  show ?thesis
  proof (cases "truthyPrice currentPrice")
    case None
    thus ?thesis by (simp add: pr)
  next
    case p: (Some p)
    show ?thesis
    proof (cases "truthyPrice collateralPrice")
      case None
      thus ?thesis by (simp add: pr p)
    next
      case (Some q)
      thus ?thesis using assms by (simp add: candidateRequest_def pr p)
    qed
  qed
qed

lemma borrowLoop_send:
  assumes "candidateRequest x coin amount (collateralCoin, collateralConfig) = Some r"
  shows "borrowLoop x coin amount ((collateralCoin, collateralConfig) # rest)
           = (if \<not> x_hasApiSecret x then ([], None)
              else case x_borrow x r of
                     Some data \<Rightarrow> ([r], Some data)
                   | None \<Rightarrow> (r # fst (borrowLoop x coin amount rest),
                               snd (borrowLoop x coin amount rest)))"
proof -
  obtain currentPrice collateralPrice where pr:
    "borrowPrices x coin collateralCoin = (currentPrice, collateralPrice)"
    by (cases "borrowPrices x coin collateralCoin")
  from assms obtain p q where p: "truthyPrice currentPrice = Some p"
    and q: "truthyPrice collateralPrice = Some q"
    and r: "r = borrowParams x coin amount collateralCoin collateralConfig p q"
    by (auto simp: candidateRequest_def pr split: option.splits)
  show ?thesis
  proof (cases "x_hasApiSecret x")
    case False
    thus ?thesis by (simp add: pr p q Let_def)
  next
    case True
    show ?thesis
    proof (cases "x_borrow x r")
      case None
      thus ?thesis using True by (simp add: pr p q r [symmetric] Let_def split: prod.splits)
    next
      case (Some data)
      thus ?thesis using True by (simp add: pr p q r [symmetric] Let_def)
    qed
  qed
qed

lemma borrowLoop_no_secret:
  "\<not> x_hasApiSecret x \<Longrightarrow> borrowLoop x coin amount candidates = ([], None)"
proof (induction candidates)
  case Nil
  show ?case by simp
next
  case (Cons candidate rest)
  obtain collateralCoin collateralConfig where c: "candidate = (collateralCoin, collateralConfig)"
    by (cases candidate)
  have ih: "borrowLoop x coin amount rest = ([], None)" using Cons.prems by (rule Cons.IH)
  show ?case
  proof (cases "candidateRequest x coin amount (collateralCoin, collateralConfig)")
    case None
    hence "borrowLoop x coin amount ((collateralCoin, collateralConfig) # rest)
             = borrowLoop x coin amount rest"
      by (rule borrowLoop_skip)
    thus ?thesis unfolding c using ih by (simp only:)
  next
    case (Some r)
    hence e: "borrowLoop x coin amount ((collateralCoin, collateralConfig) # rest)
           = (if \<not> x_hasApiSecret x then ([], None)
              else case x_borrow x r of
                     Some data \<Rightarrow> ([r], Some data)
                   | None \<Rightarrow> (r # fst (borrowLoop x coin amount rest),
                               snd (borrowLoop x coin amount rest)))"
      by (rule borrowLoop_send)
    have "(if \<not> x_hasApiSecret x then ([], None)
              else case x_borrow x r of
                     Some data \<Rightarrow> ([r], Some data)
                   | None \<Rightarrow> (r # fst (borrowLoop x coin amount rest),
                               snd (borrowLoop x coin amount rest))) = ([], None)"
      using Cons.prems by simp
    thus ?thesis unfolding c e .
  qed
qed

lemma borrowLoop_exact:
  assumes "x_hasApiSecret x"
  shows "fst (borrowLoop x coin amount candidates)
           = takeWhile (turnedDown x) (candidateRequests x coin amount candidates)
             @ take 1 (dropWhile (turnedDown x) (candidateRequests x coin amount candidates))
       \<and> snd (borrowLoop x coin amount candidates)
           = (case dropWhile (turnedDown x) (candidateRequests x coin amount candidates) of
                [] \<Rightarrow> None
              | r # later \<Rightarrow> x_borrow x r)"
proof (induction candidates)
  case Nil
  show ?case by (simp add: candidateRequests_def map_filter_simps)
next
  case (Cons candidate rest)
  obtain collateralCoin collateralConfig where c: "candidate = (collateralCoin, collateralConfig)"
    by (cases candidate)
  show ?case
  proof (cases "candidateRequest x coin amount (collateralCoin, collateralConfig)")
    case None
    hence "candidateRequests x coin amount (candidate # rest) = candidateRequests x coin amount rest"
      by (simp add: candidateRequests_def map_filter_simps c)
    moreover have "borrowLoop x coin amount (candidate # rest) = borrowLoop x coin amount rest"
      unfolding c using None by (rule borrowLoop_skip)
    ultimately show ?thesis using Cons.IH by simp
  next
    case (Some r)
    hence reqs: "candidateRequests x coin amount (candidate # rest)
                   = r # candidateRequests x coin amount rest"
      by (simp add: candidateRequests_def map_filter_simps c)
    have loop: "borrowLoop x coin amount (candidate # rest)
           = (case x_borrow x r of
                Some data \<Rightarrow> ([r], Some data)
              | None \<Rightarrow> (r # fst (borrowLoop x coin amount rest),
                          snd (borrowLoop x coin amount rest)))"
      unfolding c using borrowLoop_send [OF Some] assms by simp
    show ?thesis
    proof (cases "x_borrow x r")
      case None
      thus ?thesis using Cons.IH by (simp add: loop reqs turnedDown_def)
    next
      case (Some data)
      thus ?thesis by (simp add: loop reqs turnedDown_def)
    qed
  qed
qed

lemma candidateRequests_coins:
  "map br_collateralCoin (candidateRequests x coin amount candidates)
     = map fst (filter (\<lambda>candidate. candidateRequest x coin amount candidate \<noteq> None) candidates)
   \<and> (\<forall>r \<in> set (candidateRequests x coin amount candidates). br_loanCoin r = coin)"
proof (induction candidates)
  case Nil
  show ?case by (simp add: candidateRequests_def map_filter_simps)
next
  case (Cons candidate rest)
  show ?case
  proof (cases "candidateRequest x coin amount candidate")
    case None
    thus ?thesis using Cons.IH by (simp add: candidateRequests_def map_filter_simps)
  next
    case (Some r)
    thus ?thesis using Cons.IH candidateRequest_coins [OF Some]
      by (simp add: candidateRequests_def map_filter_simps)
  qed
qed

lemma first_grant_or_all:
  assumes "r \<in> set rs" and "\<forall>r' \<in> set rs. r' \<noteq> r \<longrightarrow> P r'"
  shows "r \<in> set (takeWhile P rs @ take 1 (dropWhile P rs))"
  using assms
proof (induction rs)
  case Nil
  thus ?case by simp
next
  case (Cons a rs)
  show ?case
  proof (cases "P a")
    case False
    hence "a = r" using Cons.prems(2) by auto
    thus ?thesis using False by simp
  next
    case True
    show ?thesis
    proof (cases "a = r")
      case True
      thus ?thesis using \<open>P a\<close> by simp
    next
      case False
      hence "r \<in> set rs" using Cons.prems(1) by simp
      hence "r \<in> set (takeWhile P rs @ take 1 (dropWhile P rs))"
        using Cons.prems(2) by (intro Cons.IH) simp_all
      thus ?thesis using True by simp
    qed
  qed
qed

text \<open>
  Claim C3, amended. For collateral assets with distinct names, \<open>borrowCoins\<close> goes
  through the enabled ones in this order: when the coin borrowed is BTC, the others by
  ascending priority and BTC last; for every other coin, BTC first and the others by
  ascending priority. With an API secret it sends one borrow request for every candidate
  that has both prices, in that order, each for the coin asked for and against the
  candidate as collateral, up to and including the first request that the exchange
  grants, and it returns that grant, or \<open>null\<close> when none is granted; without an API
  secret it sends nothing and returns \<open>null\<close>. The coin borrowed is demoted only when it
  is BTC and it is not taken out of the candidates: when it is an enabled asset with both
  prices and every request against another collateral is turned down, a request with the
  borrowed coin as its own collateral is sent.
\<close>

theorem borrowCoins_collateral_order:
  fixes assets :: "(string \<times> collateral_asset) list" and x :: exchange and coin :: string
    and amount :: real
  defines "enabled \<equiv> filter (\<lambda>(_, config). ca_enabled config) assets"
  defines "requests \<equiv> candidateRequests x coin amount (collateralOrder coin assets)"
  assumes "distinct (map fst assets)"
  shows "collateralOrder coin assets
           = (if coin = ''BTC''
              then sort_key priorityOf (filter (\<lambda>e. fst e \<noteq> ''BTC'') enabled)
                     @ filter (\<lambda>e. fst e = ''BTC'') enabled
              else filter (\<lambda>e. fst e = ''BTC'') enabled
                     @ sort_key priorityOf (filter (\<lambda>e. fst e \<noteq> ''BTC'') enabled))
       \<and> map br_collateralCoin requests
           = map fst (filter (\<lambda>candidate. candidateRequest x coin amount candidate \<noteq> None)
                        (collateralOrder coin assets))
       \<and> (\<forall>r \<in> set requests. br_loanCoin r = coin)
       \<and> (x_hasApiSecret x \<longrightarrow>
            fst (borrowCoins x assets coin amount)
              = takeWhile (turnedDown x) requests @ take 1 (dropWhile (turnedDown x) requests)
          \<and> snd (borrowCoins x assets coin amount)
              = (case dropWhile (turnedDown x) requests of [] \<Rightarrow> None | r # later \<Rightarrow> x_borrow x r))
       \<and> (\<not> x_hasApiSecret x \<longrightarrow> borrowCoins x assets coin amount = ([], None))
       \<and> (\<forall>r \<in> set requests.
            x_hasApiSecret x \<and> br_collateralCoin r = coin
            \<and> (\<forall>r' \<in> set requests. r' \<noteq> r \<longrightarrow> turnedDown x r')
            \<longrightarrow> r \<in> set (fst (borrowCoins x assets coin amount)))"
proof -
  have "distinct (map fst enabled)"
    unfolding enabled_def using assms(3) by (rule distinct_map_filter)
  then have order: "collateralOrder coin assets
           = (if coin = ''BTC''
              then sort_key priorityOf (filter (\<lambda>e. fst e \<noteq> ''BTC'') enabled)
                     @ filter (\<lambda>e. fst e = ''BTC'') enabled
              else filter (\<lambda>e. fst e = ''BTC'') enabled
                     @ sort_key priorityOf (filter (\<lambda>e. fst e \<noteq> ''BTC'') enabled))"
    unfolding collateralOrder_def Let_def enabled_def [symmetric]
    by (simp add: sortBy_BTC_last sortBy_BTC_first)
  have coins: "map br_collateralCoin requests
           = map fst (filter (\<lambda>candidate. candidateRequest x coin amount candidate \<noteq> None)
                        (collateralOrder coin assets))
       \<and> (\<forall>r \<in> set requests. br_loanCoin r = coin)"
    unfolding requests_def by (rule candidateRequests_coins)
  have exact: "x_hasApiSecret x \<longrightarrow>
            fst (borrowCoins x assets coin amount)
              = takeWhile (turnedDown x) requests @ take 1 (dropWhile (turnedDown x) requests)
          \<and> snd (borrowCoins x assets coin amount)
              = (case dropWhile (turnedDown x) requests of [] \<Rightarrow> None | r # later \<Rightarrow> x_borrow x r)"
    unfolding requests_def borrowCoins_def using borrowLoop_exact by blast
  have none: "\<not> x_hasApiSecret x \<longrightarrow> borrowCoins x assets coin amount = ([], None)"
    unfolding borrowCoins_def using borrowLoop_no_secret by blast
  have own: "\<forall>r \<in> set requests.
            x_hasApiSecret x \<and> br_collateralCoin r = coin
            \<and> (\<forall>r' \<in> set requests. r' \<noteq> r \<longrightarrow> turnedDown x r')
            \<longrightarrow> r \<in> set (fst (borrowCoins x assets coin amount))"
    using exact first_grant_or_all [of _ requests "turnedDown x"] by auto
  show ?thesis
    using order coins exact none own by blast
qed

lemmas borrow_eval = borrowCoins_def collateralOrder_def sortBy_def compareBorrowingBTC_def
  compareBorrowingOther_def COLLATERAL_CONFIG_assets_def demoExchange_def truthyPrice_def
  borrowPrices_def borrowParams_def candidateRequests_def candidateRequest_def
  map_filter_simps turnedDown_def Let_def

text \<open>
  Claim C3, as stated, fails. Borrowing BTC with the configured assets, on an exchange
  that turns down the loans against FDUSD and USDT, sends a third request whose
  collateral coin is BTC itself, and that loan is the one \<open>borrowCoins\<close> returns.
\<close>

theorem borrowCoins_uses_borrowed_coin_as_collateral:
  "map br_loanCoin (fst (borrowCoins demoExchange COLLATERAL_CONFIG_assets ''BTC'' (1/10)))
     = [''BTC'', ''BTC'', ''BTC'']
   \<and> map br_collateralCoin (fst (borrowCoins demoExchange COLLATERAL_CONFIG_assets ''BTC'' (1/10)))
     = [''FDUSD'', ''USDT'', ''BTC'']
   \<and> snd (borrowCoins demoExchange COLLATERAL_CONFIG_assets ''BTC'' (1/10)) = Some BorrowAck"
  by (simp add: borrow_eval)

theorem borrowCoins_collateral_order_witness:
  "distinct (map fst COLLATERAL_CONFIG_assets)
   \<and> x_hasApiSecret demoExchange
   \<and> map fst (collateralOrder ''BTC'' COLLATERAL_CONFIG_assets) = [''FDUSD'', ''USDT'', ''BTC'']
   \<and> map br_collateralCoin
       (candidateRequests demoExchange ''BTC'' (1/10) (collateralOrder ''BTC'' COLLATERAL_CONFIG_assets))
       = [''FDUSD'', ''USDT'', ''BTC'']
   \<and> map (turnedDown demoExchange)
       (candidateRequests demoExchange ''BTC'' (1/10) (collateralOrder ''BTC'' COLLATERAL_CONFIG_assets))
       = [True, True, False]
   \<and> fst (borrowCoins demoExchange COLLATERAL_CONFIG_assets ''BTC'' (1/10))
       = candidateRequests demoExchange ''BTC'' (1/10) (collateralOrder ''BTC'' COLLATERAL_CONFIG_assets)"
proof -
  have d: "distinct (map fst COLLATERAL_CONFIG_assets)"
    by (simp add: COLLATERAL_CONFIG_assets_def)
  have k: "x_hasApiSecret demoExchange" by (simp add: demoExchange_def)
  have o: "map fst (collateralOrder ''BTC'' COLLATERAL_CONFIG_assets) = [''FDUSD'', ''USDT'', ''BTC'']"
    by (simp add: borrow_eval)
  have c: "map br_collateralCoin
       (candidateRequests demoExchange ''BTC'' (1/10) (collateralOrder ''BTC'' COLLATERAL_CONFIG_assets))
       = [''FDUSD'', ''USDT'', ''BTC'']"
    by (simp add: borrow_eval)
  have t: "map (turnedDown demoExchange)
       (candidateRequests demoExchange ''BTC'' (1/10) (collateralOrder ''BTC'' COLLATERAL_CONFIG_assets))
       = [True, True, False]"
    by (simp add: borrow_eval)
  define requests where
    "requests = candidateRequests demoExchange ''BTC'' (1/10)
                  (collateralOrder ''BTC'' COLLATERAL_CONFIG_assets)"
  have len: "length requests = 3" using c unfolding requests_def [symmetric]
    by (metis length_map length_Cons list.size(3) numeral_3_eq_3)
  then obtain r1 r2 r3 where rs: "requests = [r1, r2, r3]"
    by (auto simp: length_Suc_conv numeral_3_eq_3)
  have td: "turnedDown demoExchange r1" "turnedDown demoExchange r2" "\<not> turnedDown demoExchange r3"
    using t unfolding requests_def [symmetric] by (simp_all add: rs)
  have "fst (borrowCoins demoExchange COLLATERAL_CONFIG_assets ''BTC'' (1/10))
          = takeWhile (turnedDown demoExchange) requests
            @ take 1 (dropWhile (turnedDown demoExchange) requests)"
    using borrowCoins_collateral_order
            [where assets = COLLATERAL_CONFIG_assets and coin = "''BTC''" and x = demoExchange
               and amount = "1/10", OF d] k
    unfolding requests_def [symmetric] by (elim conjE) (simp only: simp_thms)
  hence "fst (borrowCoins demoExchange COLLATERAL_CONFIG_assets ''BTC'' (1/10)) = requests"
    using td by (simp add: rs)
  thus ?thesis using d k o c t unfolding requests_def [symmetric] by (simp only: simp_thms)
qed

subsection \<open>Subscription retry\<close>

text \<open>
  Claim C7 on the file as it stands (\<open>retriedProducts\<close> undeclared): a subscription that
  the exchange rejects with code -9000 and a message that mentions the APY does not retry
  and does not return \<open>false\<close>; the function throws a ReferenceError.
\<close>

theorem subscribeToProduct_retry_throws:
  "subscribeToProduct 1 demoExchange None demoProduct 100 = Some (Throws ''ReferenceError'', None)"
  by (simp add: demoExchange_def)

text \<open>The same for every product, amount and exchange.\<close>

lemma subscribeToProduct_stale_APY_undeclared:
  assumes "x_subscribe x product amount = SubscribeFailed (Some (- 9000)) msg"
    and "includesText msg ''APY''"
  shows "subscribeToProduct (Suc fuel) x None product amount = Some (Throws ''ReferenceError'', None)"
  using assms by simp

text \<open>
  With the declaration supplied: a product that finds no match is marked as retried and
  the call returns \<open>false\<close>; a product marked before is not retried again.
\<close>

lemma subscribeToProduct_declared_no_match:
  assumes "x_subscribe x product amount = SubscribeFailed (Some (- 9000)) msg"
    and "includesText msg ''APY''"
    and "pr_id product \<notin> ids"
    and "find (matchesRetry product)
           (x_fetchDualProductByMeta x (pr_optionType product) (pr_exercisedCoin product)
              (pr_investCoin product)) = None"
  shows "subscribeToProduct (Suc fuel) x (Some ids) product amount
           = Some (Returns False, Some (insert (pr_id product) ids))"
  using assms by (simp add: Let_def)

lemma subscribeToProduct_declared_already_retried:
  assumes "x_subscribe x product amount = SubscribeFailed code msg"
    and "pr_id product \<in> ids"
  shows "subscribeToProduct (Suc fuel) x (Some ids) product amount = Some (Returns False, Some ids)"
  using assms by simp

text \<open>
  An accepted subscription returns \<open>true\<close> unless building the line that reports it
  throws; then the function returns \<open>false\<close> although the exchange holds the
  subscription.
\<close>

lemma subscribeToProduct_accepted:
  assumes "x_subscribe x product amount = Subscribed"
  shows "subscribeToProduct (Suc fuel) x retriedProducts product amount
           = Some (Returns (\<not> subscribedLogThrows product), retriedProducts)"
  using assms by simp

end
